theory Spec2Isabelle
  imports Main "HOL-Library.AList"
begin

section \<open>Strings\<close>

text \<open>
  A JavaScript string is modelled as a \<^typ>\<open>string\<close>: one \<^typ>\<open>char\<close> per code unit, for
  code units below 256. A value that is thrown or rejected is taken to be an \<^verbatim>\<open>Error\<close>
  object, and is modelled by its message.
\<close>

definition backtick :: char where
  "backtick = CHR 0x60"

definition newline :: char where
  "newline = CHR 0x0A"

text \<open>The characters matched by \<^verbatim>\<open>\s\<close> and removed by \<^verbatim>\<open>trim()\<close>, below code unit 256.\<close>

definition isSpace :: "char \<Rightarrow> bool" where
  "isSpace c = (c \<in> set [CHR 0x09, CHR 0x0A, CHR 0x0B, CHR 0x0C, CHR 0x0D, CHR 0x20, CHR 0xA0])"

definition isLower :: "char \<Rightarrow> bool" where
  "isLower c = (c \<in> set ''abcdefghijklmnopqrstuvwxyz'')"

definition isUpper :: "char \<Rightarrow> bool" where
  "isUpper c = (c \<in> set ''ABCDEFGHIJKLMNOPQRSTUVWXYZ'')"

definition isDigit :: "char \<Rightarrow> bool" where
  "isDigit c = (c \<in> set ''0123456789'')"

definition isAlnum :: "char \<Rightarrow> bool" where
  "isAlnum c = (isLower c \<or> isUpper c \<or> isDigit c)"

definition trim :: "string \<Rightarrow> string" where
  "trim s = rev (dropWhile isSpace (rev (dropWhile isSpace s)))"

definition startsWith :: "string \<Rightarrow> string \<Rightarrow> bool" where
  "startsWith s t = (take (length t) s = t)"

definition endsWith :: "string \<Rightarrow> string \<Rightarrow> bool" where
  "endsWith s t = (length t \<le> length s \<and> drop (length s - length t) s = t)"

fun includesStr :: "string \<Rightarrow> string \<Rightarrow> bool" where
  "includesStr [] t = (t = [])"
| "includesStr (x # xs) t = (startsWith (x # xs) t \<or> includesStr xs t)"

text \<open>\<^verbatim>\<open>toLowerCase()\<close> on code units below 256: A-Z, and the capital letters of Latin-1.\<close>

definition toLowerChar :: "char \<Rightarrow> char" where
  "toLowerChar c =
     (let n = (of_char c :: nat)
      in if (65 \<le> n \<and> n \<le> 90) \<or> (192 \<le> n \<and> n \<le> 222 \<and> n \<noteq> 215)
         then char_of (n + 32) else c)"

definition toLowerCase :: "string \<Rightarrow> string" where
  "toLowerCase s = map toLowerChar s"

text \<open>The decimal rendering of a number in a template literal.\<close>

definition digitChar :: "nat \<Rightarrow> char" where
  "digitChar d = char_of (48 + d)"

fun showNat :: "nat \<Rightarrow> string" where
  "showNat n = (if n < 10 then [digitChar n] else showNat (n div 10) @ [digitChar (n mod 10)])"

declare showNat.simps [simp del]

text \<open>The number that a string of digits stands for.\<close>

definition readNat :: "string \<Rightarrow> nat" where
  "readNat s = foldl (\<lambda>a c. 10 * a + (of_char c - 48)) 0 s"

section \<open>Regular expressions\<close>

text \<open>
  The fragment of ECMAScript regular expressions the source uses: literals, character
  classes, sequence, alternation, greedy \<^verbatim>\<open>*\<close> and \<^verbatim>\<open>+\<close> and lazy \<^verbatim>\<open>+?\<close> on a character
  class, greedy \<^verbatim>\<open>?\<close> on a group, capture groups and the anchor \<^verbatim>\<open>^\<close> (no \<^verbatim>\<open>m\<close> flag).
  The matcher is the backtracking matcher of the language: \<open>ms\<close> lists every way a
  pattern matches at the head of the input, in the order backtracking tries them, so the
  match found is the head of the list.
\<close>

datatype re =
    Lit string
  | Cls "char \<Rightarrow> bool"
  | Seq re re
  | Alt re re
  | Star "char \<Rightarrow> bool"
  | Plus "char \<Rightarrow> bool"
  | LazyPlus "char \<Rightarrow> bool"
  | Opt re
  | Group nat re
  | Bol

type_synonym captures = "nat \<rightharpoonup> string"

fun greedy :: "(char \<Rightarrow> bool) \<Rightarrow> string \<Rightarrow> string list" where
  "greedy p [] = [[]]"
| "greedy p (x # xs) = (if p x then greedy p xs @ [x # xs] else [x # xs])"

fun lazy :: "(char \<Rightarrow> bool) \<Rightarrow> string \<Rightarrow> string list" where
  "lazy p [] = [[]]"
| "lazy p (x # xs) = (if p x then (x # xs) # lazy p xs else [x # xs])"

text \<open>
  \<open>ms n r s c\<close>: \<open>n\<close> is the length of the whole input (so that \<^verbatim>\<open>^\<close> can tell the start),
  \<open>s\<close> the input from the current position, \<open>c\<close> the captures so far. Each result is the
  captures and the input left after the match. An iteration of \<^verbatim>\<open>?\<close> that consumes
  nothing is rejected, as the language's RepeatMatcher does.
\<close>

fun ms :: "nat \<Rightarrow> re \<Rightarrow> string \<Rightarrow> captures \<Rightarrow> (captures \<times> string) list" where
  "ms n (Lit t) s c = (if startsWith s t then [(c, drop (length t) s)] else [])"
| "ms n (Cls p) s c = (case s of [] \<Rightarrow> [] | x # xs \<Rightarrow> if p x then [(c, xs)] else [])"
| "ms n (Seq a b) s c = concat (map (\<lambda>(c', s'). ms n b s' c') (ms n a s c))"
| "ms n (Alt a b) s c = ms n a s c @ ms n b s c"
| "ms n (Star p) s c = map (Pair c) (greedy p s)"
| "ms n (Plus p) s c =
     (case s of [] \<Rightarrow> [] | x # xs \<Rightarrow> if p x then map (Pair c) (greedy p xs) else [])"
| "ms n (LazyPlus p) s c =
     (case s of [] \<Rightarrow> [] | x # xs \<Rightarrow> if p x then map (Pair c) (lazy p xs) else [])"
| "ms n (Opt r) s c = filter (\<lambda>(c', s'). length s' < length s) (ms n r s c) @ [(c, s)]"
| "ms n (Group g r) s c =
     map (\<lambda>(c', s'). (c'(g \<mapsto> take (length s - length s') s), s')) (ms n r s c)"
| "ms n Bol s c = (if length s = n then [(c, s)] else [])"

text \<open>
  A successful match: the text before it, the captures, the matched text (\<^verbatim>\<open>match[0]\<close>)
  and the text after it.
\<close>

record rmatch =
  before :: string
  caps :: captures
  matched :: string
  after :: string

text \<open>The search for the leftmost match, from the current position onwards.\<close>

fun search :: "re \<Rightarrow> nat \<Rightarrow> string \<Rightarrow> string \<Rightarrow> rmatch option" where
  "search r n pre s =
     (case ms n r s Map.empty of
        (c, s') # _ \<Rightarrow>
          Some \<lparr>before = pre, caps = c, matched = take (length s - length s') s, after = s'\<rparr>
      | [] \<Rightarrow> (case s of [] \<Rightarrow> None | x # xs \<Rightarrow> search r n (pre @ [x]) xs))"

declare search.simps [simp del]

text \<open>\<^verbatim>\<open>str.match(re)\<close> for a pattern without the \<^verbatim>\<open>g\<close> flag.\<close>

definition match :: "re \<Rightarrow> string \<Rightarrow> rmatch option" where
  "match r s = search r (length s) [] s"

text \<open>\<^verbatim>\<open>match[i]\<close>, with \<^verbatim>\<open>undefined\<close> (a group that took no part) read as the empty string.\<close>

definition capture :: "rmatch \<Rightarrow> nat \<Rightarrow> string" where
  "capture m g = (case caps m g of None \<Rightarrow> [] | Some t \<Rightarrow> t)"

text \<open>\<^verbatim>\<open>str.replace(re, by)\<close> for a pattern without the \<^verbatim>\<open>g\<close> flag and a replacement without \<^verbatim>\<open>$\<close>.\<close>

definition replace :: "re \<Rightarrow> string \<Rightarrow> string \<Rightarrow> string" where
  "replace r rep s = (case match r s of None \<Rightarrow> s | Some m \<Rightarrow> before m @ rep @ after m)"

section \<open>The code-block extraction engine\<close>

text \<open>A sequence of patterns, written as a list.\<close>

fun Seqs :: "re list \<Rightarrow> re" where
  "Seqs [] = Lit []"
| "Seqs [r] = r"
| "Seqs (r # rs) = Seq r (Seqs rs)"

definition fence :: string where
  "fence = [backtick, backtick, backtick]"

text \<open>The character classes \<^verbatim>\<open>[a-zA-Z0-9_+\.]\<close>, \<^verbatim>\<open>[a-zA-Z0-9_\-\.\/]\<close> and the complement of the backtick.\<close>

definition langTagChar :: "char \<Rightarrow> bool" where
  "langTagChar c = (isAlnum c \<or> c \<in> set ''_+.'')"

definition filenameChar :: "char \<Rightarrow> bool" where
  "filenameChar c = (isAlnum c \<or> c \<in> set ''_-./'')"

definition notBacktick :: "char \<Rightarrow> bool" where
  "notBacktick c = (c \<noteq> backtick)"

text \<open>
  \<^verbatim>\<open>codeBlockRegex\<close> of \<^verbatim>\<open>extractCodeFromResponse\<close> (the same pattern stands in
  \<^verbatim>\<open>extractCodeFromAssistantResponse\<close>): the fence, an optional language tag (group 1),
  an optional \<^verbatim>\<open>// filename:\<close> or \<^verbatim>\<open># filename:\<close> directive (group 2), the content
  (group 3), the fence.
\<close>

definition codeBlockRegex :: re where
  "codeBlockRegex =
     Seqs [Lit fence,
           Opt (Group 1 (Plus langTagChar)),
           Star isSpace,
           Opt (Seqs [Alt (Lit ''//'') (Lit ''#''), Star isSpace, Lit ''filename:'',
                      Star isSpace, Group 2 (Plus filenameChar)]),
           Star isSpace,
           Group 3 (Plus notBacktick),
           Lit fence]"

text \<open>The pattern tried on the first line of the content when the fence carries no directive.\<close>

definition firstLineRegex :: re where
  "firstLineRegex =
     Seqs [Bol, Alt (Lit ''//'') (Alt (Lit ''#'') (Lit ''/*'')), Star isSpace,
           Lit ''filename:'', Star isSpace, Group 1 (Plus filenameChar)]"

definition langMap :: "(string \<times> string) list" where
  "langMap =
     [(''javascript'', ''.js''), (''js'', ''.js''), (''typescript'', ''.ts''), (''ts'', ''.ts''),
      (''jsx'', ''.jsx''), (''tsx'', ''.tsx''), (''python'', ''.py''), (''py'', ''.py''),
      (''ruby'', ''.rb''), (''java'', ''.java''), (''c'', ''.c''), (''cpp'', ''.cpp''),
      (''csharp'', ''.cs''), (''cs'', ''.cs''), (''go'', ''.go''), (''html'', ''.html''),
      (''css'', ''.css''), (''json'', ''.json''), (''yaml'', ''.yml''), (''shell'', ''.sh''),
      (''bash'', ''.sh''), (''php'', ''.php''), (''swift'', ''.swift''), (''rust'', ''.rs''),
      (''kotlin'', ''.kt''), (''sql'', ''.sql'')]"

text \<open>
  \<^verbatim>\<open>langMap\<close> is an object literal, so a key it does not own is looked up in
  \<^verbatim>\<open>Object.prototype\<close>. Of the names found there only \<^verbatim>\<open>constructor\<close> and \<^verbatim>\<open>__proto__\<close>
  have no upper-case letter, so only they can equal a lower-cased tag. Their values (the
  function \<^verbatim>\<open>Object\<close> and the object \<^verbatim>\<open>Object.prototype\<close>) are true, so \<^verbatim>\<open>|| '.txt'\<close> lets
  them through; this is the text the template literal of the caller makes of them.
\<close>

definition inheritedProperty :: "string \<Rightarrow> string option" where
  "inheritedProperty key =
     (if key = ''constructor'' then Some ''function Object() { [native code] }''
      else if key = ''__proto__'' then Some ''[object Object]''
      else None)"

text \<open>\<^verbatim>\<open>langMap[language.toLowerCase()] || '.txt'\<close>, as the caller's template literal renders it.\<close>

definition getExtensionFromLanguage :: "string \<Rightarrow> string" where
  "getExtensionFromLanguage language =
     (case map_of langMap (toLowerCase language) of
        Some ext \<Rightarrow> ext
      | None \<Rightarrow>
          (case inheritedProperty (toLowerCase language) of
             Some rendered \<Rightarrow> rendered
           | None \<Rightarrow> ''.txt''))"

text \<open>
  A plain object used as a dictionary (\<^verbatim>\<open>extractedFiles\<close>, \<^verbatim>\<open>fileContents\<close>) is the list of
  its own properties in the order in which \<^verbatim>\<open>Object.keys\<close> and \<^verbatim>\<open>Object.entries\<close> list
  them: the keys that are array indices first, in ascending order, then the other keys in
  the order of their creation.
\<close>

type_synonym files = "(string \<times> string) list"

text \<open>An array index: the canonical decimal numeral of a number up to \<open>2^32 - 2\<close>.\<close>

definition isArrayIndex :: "string \<Rightarrow> bool" where
  "isArrayIndex key =
     (key \<noteq> [] \<and> list_all isDigit key \<and> (key = ''0'' \<or> hd key \<noteq> CHR ''0'') \<and>
      length key \<le> 10 \<and> readNat key \<le> 4294967294)"

text \<open>A new array-index key takes its place among the array-index keys.\<close>

fun insertIndex :: "string \<Rightarrow> string \<Rightarrow> files \<Rightarrow> files" where
  "insertIndex key v [] = [(key, v)]"
| "insertIndex key v ((k, w) # obj) =
     (if isArrayIndex k \<and> readNat k < readNat key then (k, w) # insertIndex key v obj
      else (key, v) # (k, w) # obj)"

text \<open>
  The assignment \<^verbatim>\<open>obj[key] = v\<close> of a string \<open>v\<close>. The key \<^verbatim>\<open>__proto__\<close> reaches the setter
  inherited from \<^verbatim>\<open>Object.prototype\<close>, which ignores a value that is no object: nothing is
  stored. A key the object owns keeps its place and takes the new value.
\<close>

definition setProperty :: "string \<Rightarrow> string \<Rightarrow> files \<Rightarrow> files" where
  "setProperty key v obj =
     (if key = ''__proto__'' then obj
      else if key \<in> set (map fst obj) then AList.update key v obj
      else if isArrayIndex key then insertIndex key v obj
      else obj @ [(key, v)])"

text \<open>The three values the loop body reads off a match.\<close>

definition blockLang :: "rmatch \<Rightarrow> string" where
  "blockLang m = (if capture m 1 = [] then ''txt'' else capture m 1)"

definition blockExplicitFilename :: "rmatch \<Rightarrow> string" where
  "blockExplicitFilename m = capture m 2"

definition blockCode :: "rmatch \<Rightarrow> string" where
  "blockCode m = trim (capture m 3)"

text \<open>
  The filename of a block: the directive beside the fence, else a directive on the first
  line of the content, else \<^verbatim>\<open>file<N><ext>\<close> with \<open>N\<close> one more than
  \<^verbatim>\<open>Object.keys(extractedFiles).length\<close>.
\<close>

definition blockFilename :: "files \<Rightarrow> rmatch \<Rightarrow> string" where
  "blockFilename extractedFiles m =
     (if blockExplicitFilename m \<noteq> [] then blockExplicitFilename m
      else (case match firstLineRegex (blockCode m) of
              Some firstLineMatch \<Rightarrow> capture firstLineMatch 1
            | None \<Rightarrow>
                ''file'' @ showNat (length extractedFiles + 1)
                  @ getExtensionFromLanguage (blockLang m)))"

text \<open>The body of the loop: \<^verbatim>\<open>extractedFiles[filename] = code\<close>.\<close>

definition storeBlock :: "files \<Rightarrow> rmatch \<Rightarrow> files" where
  "storeBlock extractedFiles m =
     setProperty (blockFilename extractedFiles m) (blockCode m) extractedFiles"

definition extractFiles :: "rmatch list \<Rightarrow> files" where
  "extractFiles blocks = foldl storeBlock [] blocks"

datatype framework = React | Next
datatype language = JavaScript | TypeScript
datatype cssFramework = Tailwind

record projectInfo =
  framework :: framework
  language :: language
  cssFramework :: "cssFramework option"
  features :: "string list"

definition detectProjectInfo :: "string \<Rightarrow> files \<Rightarrow> projectInfo" where
  "detectProjectInfo response extractedFiles =
     \<lparr>framework =
        (if includesStr (toLowerCase response) ''next.js'' \<or>
            (case map_of extractedFiles ''package.json'' of
               None \<Rightarrow> False | Some p \<Rightarrow> p \<noteq> [] \<and> includesStr p ''next'')
         then Next else React),
      language =
        (if includesStr (toLowerCase response) ''typescript'' \<or>
            list_ex (\<lambda>file. endsWith file ''.ts'' \<or> endsWith file ''.tsx'') (map fst extractedFiles)
         then TypeScript else JavaScript),
      cssFramework =
        (if includesStr (toLowerCase response) ''tailwind'' \<or>
            (case map_of extractedFiles ''package.json'' of
               None \<Rightarrow> False | Some p \<Rightarrow> p \<noteq> [] \<and> includesStr p ''tailwindcss'')
         then Some Tailwind else None),
      features = []\<rparr>"

record generationResult =
  files :: files
  projectInfo :: projectInfo

text \<open>
  The loop \<^verbatim>\<open>while ((match = codeBlockRegex.exec(response)) !== null)\<close>: the pattern
  has the \<^verbatim>\<open>g\<close> flag, so each search starts where the last match ended. \<open>n\<close> is the
  length of the response, \<open>s\<close> the response from \<^verbatim>\<open>lastIndex\<close> on. The loop ends because
  every match consumes the two fences.
\<close>

function codeBlockMatches :: "nat \<Rightarrow> string \<Rightarrow> rmatch list" where
  "codeBlockMatches n s =
     (case search codeBlockRegex n [] s of
        None \<Rightarrow> []
      | Some m \<Rightarrow> m # codeBlockMatches n (after m))"
  by pat_completeness auto
termination
proof (relation "measure (\<lambda>(n, s). length s)")
  show "wf (measure (\<lambda>(n :: nat, s :: string). length s))" by simp
next
  fix n :: nat and s :: string and m :: rmatch
  assume found: "search codeBlockRegex n [] s = Some m"
  have greedy_len: "s' \<in> set (greedy p s) \<Longrightarrow> length s' \<le> length s" for p and s s' :: string
    by (induction s) (auto split: if_splits)
  have lazy_len: "s' \<in> set (lazy p s) \<Longrightarrow> length s' \<le> length s" for p and s s' :: string
    by (induction s) (auto split: if_splits)
  have ms_len: "(c', s') \<in> set (ms n r s c) \<Longrightarrow> length s' \<le> length s" for r s c c' s'
  proof (induction r arbitrary: s c c' s')
    case (Seq a b)
    then obtain c1 s1 where "(c1, s1) \<in> set (ms n a s c)" "(c', s') \<in> set (ms n b s1 c1)"
      by auto
    with Seq.IH show ?case by (meson le_trans)
  next
    case (Star p)
    then show ?case by (auto dest: greedy_len)
  next
    case (Plus p)
    then show ?case by (cases s) (auto split: if_splits dest: greedy_len)
  next
    case (LazyPlus p)
    then show ?case by (cases s) (auto split: if_splits dest: lazy_len)
  next
    case (Group g r)
    then show ?case by auto
  qed (auto split: if_splits list.splits)
  have block_len: "(c', s') \<in> set (ms n codeBlockRegex s c) \<Longrightarrow> length s' < length s"
    for s c c' s'
  proof -
    assume inms: "(c', s') \<in> set (ms n codeBlockRegex s c)"
    have "\<exists>r. codeBlockRegex = Seq (Lit fence) r"
      by (simp add: codeBlockRegex_def)
    then obtain r where r: "codeBlockRegex = Seq (Lit fence) r" ..
    have "ms n (Seq (Lit fence) r) s c =
            (if startsWith s fence then ms n r (drop (length fence) s) c else [])"
      by simp
    with inms r have sw: "startsWith s fence"
      and rest: "(c', s') \<in> set (ms n r (drop (length fence) s) c)"
      by (simp_all split: if_splits)
    from sw have "length (take (length fence) s) = length fence"
      by (simp add: startsWith_def)
    then have "length fence \<le> length s" by simp
    moreover have "length s' \<le> length (drop (length fence) s)"
      using rest by (rule ms_len)
    ultimately show "length s' < length s"
      by (simp add: fence_def)
  qed
  have search_len: "search codeBlockRegex n pre s = Some m \<Longrightarrow> length (after m) < length s"
    for pre s m
  proof (induction s arbitrary: pre)
    case Nil
    show ?case
    proof (cases "ms n codeBlockRegex [] Map.empty")
      case Nil
      with Nil.prems show ?thesis by (simp add: search.simps [of _ _ _ "[]"])
    next
      case (Cons a list)
      obtain c s' where a: "a = (c, s')" by (cases a)
      with Cons have "(c, s') \<in> set (ms n codeBlockRegex [] Map.empty)" by simp
      then have "length s' < length ([] :: string)" by (rule block_len)
      then show ?thesis by simp
    qed
  next
    case (Cons x xs)
    show ?case
    proof (cases "ms n codeBlockRegex (x # xs) Map.empty")
      case Nil
      with Cons.prems have "search codeBlockRegex n (pre @ [x]) xs = Some m"
        by (simp add: search.simps [of _ _ _ "x # xs"])
      from Cons.IH [OF this] show ?thesis by simp
    next
      case (Cons a list)
      obtain c s' where a: "a = (c, s')" by (cases a)
      with Cons have "(c, s') \<in> set (ms n codeBlockRegex (x # xs) Map.empty)" by simp
      then have "length s' < length (x # xs)" by (rule block_len)
      moreover from Cons a Cons.prems have "after m = s'"
        by (auto simp: search.simps [of _ _ _ "x # xs"])
      ultimately show ?thesis by simp
    qed
  qed
  from search_len [OF found]
  show "((n, after m), (n, s)) \<in> measure (\<lambda>(n, s). length s)" by simp
qed

declare codeBlockMatches.simps [simp del]

definition codeBlocks :: "string \<Rightarrow> rmatch list" where
  "codeBlocks response = codeBlockMatches (length response) response"

definition extractCodeFromResponse :: "string \<Rightarrow> generationResult" where
  "extractCodeFromResponse response =
     \<lparr>files = extractFiles (codeBlocks response),
      projectInfo = detectProjectInfo response (extractFiles (codeBlocks response))\<rparr>"

text \<open>
  The filename each block is stored under, in the order of the loop: the first component of
  every assignment \<^verbatim>\<open>extractedFiles[filename] = code\<close>.
\<close>

fun assignedNames :: "files \<Rightarrow> rmatch list \<Rightarrow> string list" where
  "assignedNames extractedFiles [] = []"
| "assignedNames extractedFiles (m # blocks) =
     blockFilename extractedFiles m # assignedNames (storeBlock extractedFiles m) blocks"


section \<open>The world outside the program\<close>

text \<open>
  What one run of a job gets from outside: the configuration read at start-up, the clock,
  Node's \<^verbatim>\<open>path\<close> and \<^verbatim>\<open>fs\<close> modules, the shell and the three generation backends. A call
  that can throw or reject returns the error's message on the left. \<open>exec\<close> is
  \<^verbatim>\<open>child_process.exec\<close>: it takes the command, the working directory and how often that
  command ran before in the job, and gives what the callback receives: the error, if any,
  the standard output and the standard error. \<open>now k\<close> is the clock at the \<open>k\<close>-th place
  of the program that reads it. \<open>readdirTree\<close> is the tree below a directory at the
  moment the program lists it.
\<close>

text \<open>
  An entry of a directory: a file, a directory with its entries, or an entry on which
  \<^verbatim>\<open>statSync\<close> or \<^verbatim>\<open>readdirSync\<close> throws.
\<close>

datatype dirEntry =
    FileEntry
  | DirEntry "(string \<times> dirEntry) list"
  | Unreadable string

record env =
  VERCEL_TOKEN :: "string option"
  ASSISTANT_ID :: "string option"
  genAI :: bool
  anthropic :: bool
  OUTPUT_DIR_BASE :: string
  randomId :: string
  now :: "nat \<Rightarrow> nat"
  pathJoin :: "string list \<Rightarrow> string"
  pathBasename :: "string \<Rightarrow> string"
  pathDirname :: "string \<Rightarrow> string"
  pathExtname :: "string \<Rightarrow> string"
  pathRelative :: "string \<Rightarrow> string \<Rightarrow> string"
  existsSync :: "string \<Rightarrow> bool"
  mkdirSync :: "string \<Rightarrow> string option"
  writeFileSync :: "string \<Rightarrow> string \<Rightarrow> string option"
  statSize :: "string \<Rightarrow> string + nat"
  readFileSync :: "string \<Rightarrow> string + string"
  readdirTree :: "string \<Rightarrow> string + (string \<times> dirEntry) list"
  exec :: "string \<Rightarrow> string \<Rightarrow> nat \<Rightarrow> string option \<times> string \<times> string"
  threadsCreate :: "string + string"
  messagesCreate :: "string option"
  runsCreate :: "string + string"
  runsRetrieve :: "nat \<Rightarrow> string + string"
  messagesList :: "string + string option"
  geminiGenerate :: "string \<Rightarrow> string + string"
  claudeCreate :: "string \<Rightarrow> string + string"

text \<open>What the program does to the world, in order.\<close>

datatype event =
    Exec string string
  | MkDir string
  | RemoveDir string
  | WriteFile string string

text \<open>
  \<^verbatim>\<open>executeCommand\<close>: the promise is rejected with the error if there is one, and resolved
  with the standard output otherwise; the standard error is only logged.
\<close>

definition executeCommand :: "env \<Rightarrow> string \<Rightarrow> string \<Rightarrow> nat \<Rightarrow> string + string" where
  "executeCommand e command cwd k =
     (case exec e command cwd k of
        (Some err, stdout, stderr) \<Rightarrow> Inl err
      | (None, stdout, stderr) \<Rightarrow> Inr stdout)"

text \<open>
  \<^verbatim>\<open>listFilesRecursively\<close>: the files below \<open>dir\<close>, relative to \<open>baseDir\<close>, in the order of
  \<^verbatim>\<open>readdirSync\<close>; the first error met is thrown.
\<close>

fun listEntries :: "env \<Rightarrow> string \<Rightarrow> string \<Rightarrow> (string \<times> dirEntry) list \<Rightarrow> string + string list" where
  "listEntries e dir baseDir [] = Inr []"
| "listEntries e dir baseDir ((file, Unreadable err) # rest) = Inl err"
| "listEntries e dir baseDir ((file, FileEntry) # rest) =
     (case listEntries e dir baseDir rest of
        Inl err \<Rightarrow> Inl err
      | Inr others \<Rightarrow> Inr (pathRelative e baseDir (pathJoin e [dir, file]) # others))"
| "listEntries e dir baseDir ((file, DirEntry sub) # rest) =
     (case listEntries e (pathJoin e [dir, file]) baseDir sub of
        Inl err \<Rightarrow> Inl err
      | Inr found \<Rightarrow>
          (case listEntries e dir baseDir rest of
             Inl err \<Rightarrow> Inl err
           | Inr others \<Rightarrow> Inr (found @ others)))"

definition listFilesRecursively :: "env \<Rightarrow> string \<Rightarrow> string \<Rightarrow> string + string list" where
  "listFilesRecursively e dir baseDir =
     (case readdirTree e dir of
        Inl err \<Rightarrow> Inl err
      | Inr entries \<Rightarrow> listEntries e dir baseDir entries)"

text \<open>The truth value of an optional string: \<^verbatim>\<open>undefined\<close> and the empty string are false.\<close>

definition truthy :: "string option \<Rightarrow> bool" where
  "truthy v = (case v of None \<Rightarrow> False | Some t \<Rightarrow> t \<noteq> [])"

section \<open>The deployment adapter\<close>

text \<open>The patterns \<^verbatim>\<open>/(https:\/\/[^\s]+)/\<close> and \<^verbatim>\<open>/-[a-z0-9]+\.vercel\.app/\<close>.\<close>

definition urlRegex :: re where
  "urlRegex = Group 1 (Seq (Lit ''https://'') (Plus (\<lambda>c. \<not> isSpace c)))"

definition previewSuffixRegex :: re where
  "previewSuffixRegex = Seqs [Lit ''-'', Plus (\<lambda>c. isLower c \<or> isDigit c), Lit ''.vercel.app'']"

text \<open>The first URL-shaped token of the deployment tool's output: \<^verbatim>\<open>urlMatch[0]\<close>.\<close>

definition firstUrlToken :: "string \<Rightarrow> string option" where
  "firstUrlToken deployOutput = map_option matched (match urlRegex deployOutput)"

text \<open>
  Lines 681 to 692 of \<^verbatim>\<open>deployToVercel\<close>: the URL parsed from the output, with the preview
  suffix removed and a trailing slash; \<open>None\<close> is \<^verbatim>\<open>null\<close>.
\<close>

definition parseDeploymentUrl :: "string \<Rightarrow> string option" where
  "parseDeploymentUrl deployOutput =
     (case map_option trim (firstUrlToken deployOutput) of
        None \<Rightarrow> None
      | Some deploymentUrl \<Rightarrow>
          if deploymentUrl = [] then None
          else (let url = replace previewSuffixRegex ''.vercel.app'' deploymentUrl
                in Some (if endsWith url ''/'' then url else url @ ''/'')))"

datatype deployResult =
    DeploySuccess string string
  | DeployFailure string

text \<open>
  \<^verbatim>\<open>deployToVercel\<close>: the events it causes and what it returns. Without a token it throws
  before its \<^verbatim>\<open>try\<close> (the left value); every error inside the \<^verbatim>\<open>try\<close> becomes the
  result \<^verbatim>\<open>{success: false, error}\<close>. A failure to remove the \<^verbatim>\<open>.vercel\<close> directory is
  logged and ignored.
\<close>

definition deployCommand :: "env \<Rightarrow> string \<Rightarrow> string" where
  "deployCommand e projectName =
     ''npx vercel deploy --token='' @ (case VERCEL_TOKEN e of None \<Rightarrow> [] | Some t \<Rightarrow> t)
       @ '' --name='' @ projectName @ '' --confirm --prod''"

definition deployToVercel :: "env \<Rightarrow> string \<Rightarrow> string \<Rightarrow> event list \<times> (string + deployResult)" where
  "deployToVercel e projectDir projectName =
     (let installCmd = ''npm install'';
          pluginCmd = ''npm install @vitejs/plugin-react --save-dev'';
          vercelConfigDir = pathJoin e [projectDir, ''.vercel''];
          ignoreFile = pathJoin e [projectDir, ''.vercelignore''];
          ignoreText = ''README.md'' @ [newline] @ ''node_modules'' @ [newline] @ ''.git'';
          ev1 = [Exec installCmd projectDir];
          ev2 = ev1 @ [Exec pluginCmd projectDir];
          ev3 = ev2 @ (if existsSync e vercelConfigDir then [RemoveDir vercelConfigDir] else []);
          ev4 = ev3 @ [WriteFile ignoreFile ignoreText];
          ev5 = ev4 @ [Exec (deployCommand e projectName) projectDir]
      in if \<not> truthy (VERCEL_TOKEN e)
         then ([], Inl ''Vercel token not configured. Cannot deploy project.'')
         else (case executeCommand e installCmd projectDir 0 of
                 Inl err \<Rightarrow> (ev1, Inr (DeployFailure err))
               | Inr _ \<Rightarrow>
                   (case executeCommand e pluginCmd projectDir 0 of
                      Inl err \<Rightarrow> (ev2, Inr (DeployFailure err))
                    | Inr _ \<Rightarrow>
                        (case writeFileSync e ignoreFile ignoreText of
                           Some err \<Rightarrow> (ev4, Inr (DeployFailure err))
                         | None \<Rightarrow>
                             (case executeCommand e (deployCommand e projectName) projectDir 0 of
                                Inl err \<Rightarrow> (ev5, Inr (DeployFailure err))
                              | Inr deployOutput \<Rightarrow>
                                  (case parseDeploymentUrl deployOutput of
                                     None \<Rightarrow>
                                       (ev5, Inr (DeployFailure
                                          ''Could not extract deployment URL from Vercel output''))
                                   | Some deploymentUrl \<Rightarrow>
                                       (ev5, Inr (DeploySuccess deploymentUrl deployOutput))))))))"

section \<open>The build test\<close>

text \<open>
  The patterns \<^verbatim>\<open>/Could not resolve ["'](.+?.css)["']/\<close> and \<^verbatim>\<open>/from ["'](.+?)["']/\<close> of
  \<^verbatim>\<open>testBuildProject\<close>. A dot matches every character but a line terminator.
\<close>

definition isQuote :: "char \<Rightarrow> bool" where
  "isQuote c = (c = CHR 0x22 \<or> c = CHR 0x27)"

definition isDot :: "char \<Rightarrow> bool" where
  "isDot c = (c \<noteq> CHR 0x0A \<and> c \<noteq> CHR 0x0D)"

definition missingFileRegex :: re where
  "missingFileRegex =
     Seqs [Lit ''Could not resolve '', Cls isQuote,
           Group 1 (Seqs [LazyPlus isDot, Cls isDot, Lit ''css'']), Cls isQuote]"

definition componentRegex :: re where
  "componentRegex = Seqs [Lit ''from '', Cls isQuote, Group 1 (LazyPlus isDot), Cls isQuote]"

definition hasSourceExtension :: "string \<Rightarrow> bool" where
  "hasSourceExtension p =
     (endsWith p ''.js'' \<or> endsWith p ''.jsx'' \<or> endsWith p ''.ts'' \<or> endsWith p ''.tsx'')"

text \<open>The component file on disk: the path of the error text, or the first of the four extensions that exists.\<close>

definition locateComponent :: "env \<Rightarrow> string \<Rightarrow> string \<Rightarrow> string" where
  "locateComponent e projectDir componentPath =
     (let componentFullPath = pathJoin e [projectDir, ''src'', componentPath]
      in if \<not> hasSourceExtension componentFullPath
         then (case find (\<lambda>ext. existsSync e (componentFullPath @ ext))
                      [''.jsx'', ''.js'', ''.tsx'', ''.ts''] of
                 Some ext \<Rightarrow> componentFullPath @ ext
               | None \<Rightarrow> componentFullPath)
         else componentFullPath)"

definition buildCommand :: string where
  "buildCommand = ''npm run build''"

text \<open>
  When the first build fails: the stylesheet to create, if the error text is about an
  unresolved CSS import and the importing component is found on disk. The result is the
  path of the component file and the path of the stylesheet.
\<close>

definition cssRepair :: "env \<Rightarrow> string \<Rightarrow> string \<Rightarrow> (string \<times> string) option" where
  "cssRepair e projectDir message =
     (if includesStr message ''Could not resolve'' \<and> includesStr message ''.css''
      then (case match missingFileRegex message of
              None \<Rightarrow> None
            | Some missingFileMatch \<Rightarrow>
                if capture missingFileMatch 1 = [] then None
                else (case match componentRegex message of
                        None \<Rightarrow> None
                      | Some componentMatch \<Rightarrow>
                          if capture componentMatch 1 = [] then None
                          else (let componentFullPath =
                                      locateComponent e projectDir (capture componentMatch 1)
                                in if existsSync e componentFullPath
                                   then Some (componentFullPath,
                                              pathJoin e [pathDirname e componentFullPath,
                                                          pathBasename e (capture missingFileMatch 1)])
                                   else None)))
      else None)"

text \<open>
  \<^verbatim>\<open>testBuildProject\<close>: the events it causes and whether the build succeeded. The write of
  the placeholder stands outside any \<^verbatim>\<open>try\<close> of its own, so an error there leaves the
  function (the left value).
\<close>

definition testBuildProject :: "env \<Rightarrow> string \<Rightarrow> event list \<times> (string + bool)" where
  "testBuildProject e projectDir =
     (case executeCommand e buildCommand projectDir 0 of
        Inr _ \<Rightarrow> ([Exec buildCommand projectDir], Inr True)
      | Inl message \<Rightarrow>
          (case cssRepair e projectDir message of
             None \<Rightarrow> ([Exec buildCommand projectDir], Inr False)
           | Some (componentFullPath, cssFilePath) \<Rightarrow>
               let cssText = ''/* Auto-generated CSS file for '' @ pathBasename e componentFullPath
                               @ '' */'' @ [newline];
                   ev = [Exec buildCommand projectDir, WriteFile cssFilePath cssText]
               in (case writeFileSync e cssFilePath cssText of
                     Some err \<Rightarrow> (ev, Inl err)
                   | None \<Rightarrow>
                       (case executeCommand e buildCommand projectDir 1 of
                          Inr _ \<Rightarrow> (ev @ [Exec buildCommand projectDir], Inr True)
                        | Inl _ \<Rightarrow> (ev @ [Exec buildCommand projectDir], Inr False)))))"

section \<open>Jobs\<close>

datatype status =
    Pending
  | Generating
  | Scaffolding
  | Deploying
  | Completed
  | CompletedWithoutDeployment
  | DeploymentFailed
  | Failed

text \<open>
  A job of \<^verbatim>\<open>deploymentJobs\<close>. The five last fields are absent from the object until the
  background task sets them.
\<close>

record job =
  jobId :: string
  prompt :: string
  outputDir :: string
  status :: status
  created :: nat
  lastUpdated :: nat
  completed :: bool
  apiProvider :: string
  jobFiles :: "string list option"
  fileContents :: "(string \<times> string) list option"
  deploymentUrl :: "string option"
  deploymentOutput :: "string option"
  error :: "string option"

text \<open>
  The state machine of the job orchestrator: the edges of the graph, the terminal states,
  and how far along the pipeline a state is.
\<close>

fun edge :: "status \<Rightarrow> status \<Rightarrow> bool" where
  "edge _ Failed = True"
| "edge Pending Generating = True"
| "edge Generating Scaffolding = True"
| "edge Scaffolding Deploying = True"
| "edge Deploying Completed = True"
| "edge Deploying CompletedWithoutDeployment = True"
| "edge Deploying DeploymentFailed = True"
| "edge _ _ = False"

fun terminal :: "status \<Rightarrow> bool" where
  "terminal Completed = True"
| "terminal CompletedWithoutDeployment = True"
| "terminal DeploymentFailed = True"
| "terminal Failed = True"
| "terminal _ = False"

fun rank :: "status \<Rightarrow> nat" where
  "rank Pending = 0"
| "rank Generating = 1"
| "rank Scaffolding = 2"
| "rank Deploying = 3"
| "rank _ = 4"

text \<open>
  A run of the background task is the list of the job's states, one after every assignment
  to the job. The flag says whether the task can be suspended in that state (an
  \<^verbatim>\<open>await\<close> follows before the next assignment, or the task has ended): between two
  suspensions no status query runs, so only flagged states can be observed.
\<close>

type_synonym snapshot = "job \<times> bool"

section \<open>Generation\<close>

definition MAX_POLLING_ATTEMPTS :: nat where
  "MAX_POLLING_ATTEMPTS = 300"

function pollForRunCompletion :: "env \<Rightarrow> nat \<Rightarrow> string + string" where
  "pollForRunCompletion e attempts =
     (if attempts < MAX_POLLING_ATTEMPTS
      then (case runsRetrieve e (attempts + 1) of
              Inl err \<Rightarrow> Inl err
            | Inr runStatus \<Rightarrow>
                if runStatus \<in> set [''completed'', ''failed'', ''cancelled'', ''expired'']
                then Inr runStatus
                else if runStatus = ''requires_action'' then Inr ''failed''
                else pollForRunCompletion e (attempts + 1))
      else Inl ''Run polling timed out after maximum attempts'')"
  by pat_completeness auto
termination
  by (relation "measure (\<lambda>(e, attempts). MAX_POLLING_ATTEMPTS - attempts)") auto

declare pollForRunCompletion.simps [simp del]

text \<open>
  \<^verbatim>\<open>extractCodeFromAssistantResponse\<close>: the text of the most recent assistant message, then
  the same loop and the same detection as \<^verbatim>\<open>extractCodeFromResponse\<close>.
\<close>

definition extractCodeFromAssistantResponse :: "env \<Rightarrow> string + generationResult" where
  "extractCodeFromAssistantResponse e =
     (case messagesList e of
        Inl err \<Rightarrow> Inl err
      | Inr None \<Rightarrow> Inl ''No assistant message found in thread''
      | Inr (Some textContent) \<Rightarrow> Inr (extractCodeFromResponse textContent))"

definition generateCodeWithGemini :: "env \<Rightarrow> string \<Rightarrow> string + generationResult" where
  "generateCodeWithGemini e userPrompt =
     (case geminiGenerate e userPrompt of
        Inl err \<Rightarrow> Inl err
      | Inr text \<Rightarrow> Inr (extractCodeFromResponse text))"

definition generateCodeWithClaude :: "env \<Rightarrow> string \<Rightarrow> string + generationResult" where
  "generateCodeWithClaude e userPrompt =
     (if \<not> anthropic e then Inl ''Anthropic client not initialized. Check ANTHROPIC_API_KEY.''
      else (case claudeCreate e userPrompt of
              Inl err \<Rightarrow> Inl err
            | Inr responseText \<Rightarrow>
                if responseText = [] then Inl ''Received empty response from Claude API''
                else Inr (extractCodeFromResponse responseText)))"

text \<open>The first part of the \<^verbatim>\<open>try\<close> block of \<^verbatim>\<open>processGenerateAndDeploy\<close>: one backend per provider.\<close>

definition generate :: "env \<Rightarrow> string \<Rightarrow> string \<Rightarrow> string + generationResult" where
  "generate e userPrompt provider =
     (if provider = ''openai''
      then (case threadsCreate e of
              Inl err \<Rightarrow> Inl err
            | Inr thread \<Rightarrow>
                (case messagesCreate e of
                   Some err \<Rightarrow> Inl err
                 | None \<Rightarrow>
                     (case runsCreate e of
                        Inl err \<Rightarrow> Inl err
                      | Inr run \<Rightarrow>
                          (case pollForRunCompletion e 0 of
                             Inl err \<Rightarrow> Inl err
                           | Inr runStatus \<Rightarrow>
                               if runStatus \<noteq> ''completed''
                               then Inl (''Assistant Run failed: '' @ runStatus)
                               else extractCodeFromAssistantResponse e))))
      else if provider = ''gemini'' then generateCodeWithGemini e userPrompt
      else if provider = ''claude'' then generateCodeWithClaude e userPrompt
      else Inl (''Unsupported API provider: '' @ provider))"

section \<open>Scaffolding and materialization\<close>

definition scaffoldCmd :: "projectInfo \<Rightarrow> string" where
  "scaffoldCmd info =
     (if framework info = Next
      then ''npx create-next-app@latest . ''
             @ (if language info = TypeScript then ''--typescript'' else [])
             @ '' --eslint --use-npm --src-dir --app --tailwind=false''
      else ''npx create-vite@latest . --template ''
             @ (if language info = TypeScript then ''react-ts'' else ''react''))"

definition createScaffoldedProject :: "env \<Rightarrow> string \<Rightarrow> projectInfo \<Rightarrow> event list \<times> string option" where
  "createScaffoldedProject e dir info =
     (let installCmd = ''npm install -D tailwindcss postcss autoprefixer'';
          initCmd = ''npx tailwindcss init -p'';
          ev1 = [Exec (scaffoldCmd info) dir];
          ev2 = ev1 @ [Exec installCmd dir];
          ev3 = ev2 @ [Exec initCmd dir]
      in case executeCommand e (scaffoldCmd info) dir 0 of
           Inl err \<Rightarrow> (ev1, Some err)
         | Inr _ \<Rightarrow>
             (if cssFramework info = Some Tailwind \<and> framework info \<noteq> Next
              then (case executeCommand e installCmd dir 0 of
                      Inl err \<Rightarrow> (ev2, Some err)
                    | Inr _ \<Rightarrow>
                        (case executeCommand e initCmd dir 0 of
                           Inl err \<Rightarrow> (ev3, Some err)
                         | Inr _ \<Rightarrow> (ev3, None)))
              else (ev1, None)))"

fun addGeneratedCodeToProject :: "env \<Rightarrow> string \<Rightarrow> files \<Rightarrow> event list \<times> string option" where
  "addGeneratedCodeToProject e projectDir [] = ([], None)"
| "addGeneratedCodeToProject e projectDir ((filename, content) # rest) =
     (let filePath = pathJoin e [projectDir, filename];
          directory = pathDirname e filePath
      in case (if existsSync e directory then None else mkdirSync e directory) of
           Some err \<Rightarrow> ([MkDir directory], Some err)
         | None \<Rightarrow>
             (let ev = (if existsSync e directory then [] else [MkDir directory])
                         @ [WriteFile filePath content]
              in case writeFileSync e filePath content of
                   Some err \<Rightarrow> (ev, Some err)
                 | None \<Rightarrow>
                     (case addGeneratedCodeToProject e projectDir rest of
                        (ev', r) \<Rightarrow> (ev @ ev', r))))"

definition textExtensions :: "string list" where
  "textExtensions =
     [''.txt'', ''.js'', ''.jsx'', ''.ts'', ''.tsx'', ''.py'', ''.html'', ''.css'', ''.scss'',
      ''.json'', ''.md'', ''.yaml'', ''.yml'', ''.xml'', ''.csv'', ''.sh'', ''.bat'', ''.ps1'',
      ''.gitignore'', ''.env'', ''.c'', ''.cpp'', ''.h'', ''.hpp'', ''.java'', ''.rb'', ''.php'',
      ''.go'', ''.rs'', ''.swift'', ''.kt'', ''.kts'', ''.sql'', ''.prisma'', ''.graphql'']"

definition isTextFile :: "env \<Rightarrow> string \<Rightarrow> bool" where
  "isTextFile e filename = (toLowerCase (pathExtname e filename) \<in> set textExtensions)"

text \<open>Step 9: the content of every small text file; a file that cannot be read is skipped.\<close>

definition readContents :: "env \<Rightarrow> string \<Rightarrow> string list \<Rightarrow> (string \<times> string) list" where
  "readContents e dir projectFiles =
     foldl (\<lambda>contents file.
              case statSize e (pathJoin e [dir, file]) of
                Inl _ \<Rightarrow> contents
              | Inr bytes \<Rightarrow>
                  if bytes < 1024 * 1024 \<and> isTextFile e file
                  then (case readFileSync e (pathJoin e [dir, file]) of
                          Inl _ \<Rightarrow> contents
                        | Inr content \<Rightarrow> setProperty file content contents)
                  else contents)
           [] projectFiles"

section \<open>The background task\<close>

text \<open>The \<^verbatim>\<open>catch\<close> block: four assignments, then the task ends.\<close>

definition catchBlock :: "env \<Rightarrow> job \<Rightarrow> string \<Rightarrow> snapshot list" where
  "catchBlock e j message =
     (let j1 = j\<lparr>status := Failed\<rparr>;
          j2 = j1\<lparr>error := Some message\<rparr>;
          j3 = j2\<lparr>lastUpdated := now e 6\<rparr>;
          j4 = j3\<lparr>completed := True\<rparr>
      in [(j1, False), (j2, False), (j3, False), (j4, True)])"

text \<open>The final job update of the \<^verbatim>\<open>try\<close> block.\<close>

definition finalUpdate :: "env \<Rightarrow> job \<Rightarrow> snapshot list" where
  "finalUpdate e j =
     (let j1 = j\<lparr>lastUpdated := now e 5\<rparr>;
          j2 = j1\<lparr>completed := True\<rparr>
      in [(j1, False), (j2, True)])"

text \<open>
  Step 10, from the assignment of \<^verbatim>\<open>deploying\<close> on. With a token the task awaits
  \<^verbatim>\<open>deployToVercel\<close>; without one nothing is awaited between \<^verbatim>\<open>deploying\<close> and
  \<^verbatim>\<open>completed_without_deployment\<close>.
\<close>

definition deployStep :: "env \<Rightarrow> string \<Rightarrow> string \<Rightarrow> job \<Rightarrow> snapshot list \<times> event list" where
  "deployStep e dir uniqueId j =
     (let j1 = j\<lparr>status := Deploying\<rparr>;
          j2 = j1\<lparr>lastUpdated := now e 4\<rparr>
      in if truthy (VERCEL_TOKEN e)
         then (case deployToVercel e dir (''ai-project-'' @ uniqueId) of
                 (ev, Inl message) \<Rightarrow> ([(j1, False), (j2, True)] @ catchBlock e j2 message, ev)
               | (ev, Inr (DeploySuccess url output)) \<Rightarrow>
                   (let j3 = j2\<lparr>status := Completed\<rparr>;
                        j4 = j3\<lparr>deploymentUrl := Some url\<rparr>;
                        j5 = j4\<lparr>deploymentOutput := Some output\<rparr>
                    in ([(j1, False), (j2, True), (j3, False), (j4, False), (j5, False)]
                          @ finalUpdate e j5, ev))
               | (ev, Inr (DeployFailure err)) \<Rightarrow>
                   (let j3 = j2\<lparr>status := DeploymentFailed\<rparr>;
                        j4 = j3\<lparr>error := Some err\<rparr>
                    in ([(j1, False), (j2, True), (j3, False), (j4, False)] @ finalUpdate e j4, ev)))
         else (let j3 = j2\<lparr>status := CompletedWithoutDeployment\<rparr>;
                   j4 = j3\<lparr>error := Some ''Vercel token not configured. Project generated but not deployed.''\<rparr>
               in ([(j1, False), (j2, False), (j3, False), (j4, False)] @ finalUpdate e j4, [])))"

text \<open>Steps 6 to 9, from the assignment of \<^verbatim>\<open>scaffolding\<close> on, then step 10.\<close>

definition materializeStep ::
    "env \<Rightarrow> string \<Rightarrow> string \<Rightarrow> generationResult \<Rightarrow> job \<Rightarrow> snapshot list \<times> event list" where
  "materializeStep e dir uniqueId result j =
     (let j1 = j\<lparr>status := Scaffolding\<rparr>;
          j2 = j1\<lparr>lastUpdated := now e 3\<rparr>;
          t = [(j1, False), (j2, True)]
      in case createScaffoldedProject e dir (projectInfo result) of
           (ev1, Some message) \<Rightarrow> (t @ catchBlock e j2 message, ev1)
         | (ev1, None) \<Rightarrow>
             (case addGeneratedCodeToProject e dir (files result) of
                (ev2, Some message) \<Rightarrow> (t @ catchBlock e j2 message, ev1 @ ev2)
              | (ev2, None) \<Rightarrow>
                  (case listFilesRecursively e dir dir of
                     Inl message \<Rightarrow> (t @ catchBlock e j2 message, ev1 @ ev2)
                   | Inr projectFiles \<Rightarrow>
                       (let j3 = j2\<lparr>jobFiles := Some projectFiles\<rparr>;
                            j4 = j3\<lparr>fileContents := Some (readContents e dir projectFiles)\<rparr>
                        in case deployStep e dir uniqueId j4 of
                             (t', ev3) \<Rightarrow> (t @ [(j3, False), (j4, False)] @ t', ev1 @ ev2 @ ev3)))))"

text \<open>
  \<^verbatim>\<open>processGenerateAndDeploy\<close>, given the job that \<^verbatim>\<open>deploymentJobs.get(uniqueId)\<close> yields:
  the states the job goes through and the events caused. Every error of the \<^verbatim>\<open>try\<close>
  block ends in the \<^verbatim>\<open>catch\<close> block, so the promise is never rejected and the
  \<^verbatim>\<open>.catch\<close> handler of the route has nothing to handle.
\<close>

definition processGenerateAndDeploy ::
    "env \<Rightarrow> string \<Rightarrow> string \<Rightarrow> string \<Rightarrow> job \<Rightarrow> snapshot list \<times> event list" where
  "processGenerateAndDeploy e userPrompt uniqueId provider j =
     (let dir = pathJoin e [OUTPUT_DIR_BASE e, uniqueId];
          j1 = j\<lparr>status := Generating\<rparr>;
          j2 = j1\<lparr>lastUpdated := now e 2\<rparr>;
          t = [(j1, False), (j2, True)]
      in case generate e userPrompt provider of
           Inl message \<Rightarrow> (t @ catchBlock e j2 message, [])
         | Inr result \<Rightarrow>
             if length (files result) = 0
             then (t @ catchBlock e j2 ''No code files found in API response'', [])
             else (case materializeStep e dir uniqueId result j2 of
                     (t', ev) \<Rightarrow> (t @ t', ev)))"

section \<open>The two routes\<close>

text \<open>The job entry that \<^verbatim>\<open>POST /generateProject\<close> stores.\<close>

definition newJob :: "env \<Rightarrow> string \<Rightarrow> string \<Rightarrow> job" where
  "newJob e userPrompt provider =
     \<lparr>jobId = randomId e, prompt = userPrompt,
      outputDir = ''generated_projects/'' @ randomId e,
      status = Pending, created = now e 0, lastUpdated = now e 1, completed = False,
      apiProvider = provider,
      jobFiles = None, fileContents = None, deploymentUrl = None, deploymentOutput = None,
      error = None\<rparr>"

text \<open>
  \<^verbatim>\<open>POST /generateProject\<close>: the body's \<^verbatim>\<open>prompt\<close> and \<^verbatim>\<open>apiProvider\<close> (\<open>None\<close> when the body
  has none). A request that fails validation gets the error text (status 400) and no job
  is made; otherwise the run starts with the new job, before the task's first assignment.
\<close>

definition generateProject ::
    "env \<Rightarrow> string option \<Rightarrow> string option \<Rightarrow> string + (snapshot list \<times> event list)" where
  "generateProject e promptField providerField =
     (let provider = (case providerField of None \<Rightarrow> ''openai'' | Some p \<Rightarrow> p) in
      if \<not> truthy promptField then Inl ''Missing required field: prompt''
      else if provider \<notin> set [''openai'', ''gemini'', ''claude'']
      then Inl ''Invalid apiProvider. Must be one of: openai, gemini, claude''
      else if provider = ''openai'' \<and> \<not> truthy (ASSISTANT_ID e)
      then Inl ''OpenAI provider selected, but OPENAI_API_KEY or ASSISTANT_ID is missing or invalid.''
      else if provider = ''gemini'' \<and> \<not> genAI e
      then Inl ''Gemini provider selected, but GOOGLE_API_KEY is missing or invalid.''
      else if provider = ''claude'' \<and> \<not> anthropic e
      then Inl ''Claude provider selected, but ANTHROPIC_API_KEY is missing or invalid.''
      else (let userPrompt = (case promptField of None \<Rightarrow> [] | Some p \<Rightarrow> p);
                j = newJob e userPrompt provider
            in case processGenerateAndDeploy e userPrompt (randomId e) provider j of
                 (t, ev) \<Rightarrow> Inr ((j, False) # t, MkDir (pathJoin e [OUTPUT_DIR_BASE e, randomId e]) # ev)))"

text \<open>
  The body of a successful \<^verbatim>\<open>GET /getDeploymentStatus\<close>. A field that is \<open>None\<close> is absent
  from the JSON object; \<^verbatim>\<open>success\<close> is always \<^verbatim>\<open>true\<close>.
\<close>

record statusResponse =
  r_success :: bool
  r_jobId :: string
  r_status :: status
  r_created :: nat
  r_lastUpdated :: nat
  r_outputDir :: "string option"
  r_error :: "string option"
  r_files :: "string list option"
  r_deploymentUrl :: "string option"
  r_fileContents :: "(string \<times> string) list option"

text \<open>
  The handler for a job found in \<^verbatim>\<open>deploymentJobs\<close>; \<open>includeFiles\<close> is the query
  parameter, if any. An array or an object is true whatever it holds.
\<close>

definition getDeploymentStatus :: "job \<Rightarrow> string option \<Rightarrow> statusResponse" where
  "getDeploymentStatus j includeFiles =
     (let response =
            \<lparr>r_success = True, r_jobId = jobId j, r_status = status j, r_created = created j,
             r_lastUpdated = lastUpdated j, r_outputDir = None, r_error = None, r_files = None,
             r_deploymentUrl = None, r_fileContents = None\<rparr>
      in if completed j
         then response
                \<lparr>r_outputDir := Some (outputDir j),
                 r_error := (if truthy (error j) then error j else None),
                 r_files := (if jobFiles j \<noteq> None then jobFiles j else None),
                 r_deploymentUrl := (if truthy (deploymentUrl j) then deploymentUrl j else None),
                 r_fileContents :=
                   (if includeFiles = Some ''true'' \<and> fileContents j \<noteq> None
                    then fileContents j else None)\<rparr>
         else response)"

section \<open>Predicates and examples used in the proofs\<close>

text \<open>Every character a pattern can consume satisfies \<open>Q\<close>.\<close>

primrec consumesOnly :: "(char \<Rightarrow> bool) \<Rightarrow> re \<Rightarrow> bool" where
  "consumesOnly Q (Lit t) = list_all Q t"
| "consumesOnly Q (Cls p) = (\<forall>x. p x \<longrightarrow> Q x)"
| "consumesOnly Q (Seq a b) = (consumesOnly Q a \<and> consumesOnly Q b)"
| "consumesOnly Q (Alt a b) = (consumesOnly Q a \<and> consumesOnly Q b)"
| "consumesOnly Q (Star p) = (\<forall>x. p x \<longrightarrow> Q x)"
| "consumesOnly Q (Plus p) = (\<forall>x. p x \<longrightarrow> Q x)"
| "consumesOnly Q (LazyPlus p) = (\<forall>x. p x \<longrightarrow> Q x)"
| "consumesOnly Q (Opt r) = consumesOnly Q r"
| "consumesOnly Q (Group g r) = consumesOnly Q r"
| "consumesOnly Q Bol = True"

text \<open>Every group numbered \<open>g\<close> in a pattern consumes only characters that satisfy \<open>Q\<close>.\<close>

primrec groupConsumesOnly :: "nat \<Rightarrow> (char \<Rightarrow> bool) \<Rightarrow> re \<Rightarrow> bool" where
  "groupConsumesOnly g Q (Lit t) = True"
| "groupConsumesOnly g Q (Cls p) = True"
| "groupConsumesOnly g Q (Seq a b) = (groupConsumesOnly g Q a \<and> groupConsumesOnly g Q b)"
| "groupConsumesOnly g Q (Alt a b) = (groupConsumesOnly g Q a \<and> groupConsumesOnly g Q b)"
| "groupConsumesOnly g Q (Star p) = True"
| "groupConsumesOnly g Q (Plus p) = True"
| "groupConsumesOnly g Q (LazyPlus p) = True"
| "groupConsumesOnly g Q (Opt r) = groupConsumesOnly g Q r"
| "groupConsumesOnly g Q (Group h r) =
     ((if h = g then consumesOnly Q r else True) \<and> groupConsumesOnly g Q r)"
| "groupConsumesOnly g Q Bol = True"

definition capturedOnly :: "nat \<Rightarrow> (char \<Rightarrow> bool) \<Rightarrow> captures \<Rightarrow> bool" where
  "capturedOnly g Q c = (case c g of None \<Rightarrow> True | Some t \<Rightarrow> list_all Q t)"

text \<open>No key and no value of a mapping holds a backtick.\<close>

definition cleanEntries :: "files \<Rightarrow> bool" where
  "cleanEntries fs = list_all (\<lambda>(k, v). list_all notBacktick k \<and> list_all notBacktick v) fs"

text \<open>A response with two blocks; the second holds a template literal.\<close>

definition exTemplateLiteral :: string where
  "exTemplateLiteral =
     fence @ ''js'' @ [newline] @ ''// filename: a.js'' @ [newline] @ ''let a = 1;'' @ [newline]
       @ fence @ [newline]
       @ fence @ ''js'' @ [newline] @ ''let s = '' @ [backtick] @ ''hi'' @ [backtick] @ '';''
       @ [newline] @ fence"

text \<open>
  The response of the scenario: the fence with the tag \<^verbatim>\<open>jsx\<close>, the line
  \<^verbatim>\<open>// filename: src/App.jsx\<close>, the line \<^verbatim>\<open>export default () => null;\<close>, the fence.
\<close>

definition exAppJsx :: string where
  "exAppJsx =
     fence @ ''jsx'' @ [newline] @ ''// filename: src/App.jsx'' @ [newline]
       @ ''export default () => null;'' @ [newline] @ fence"

text \<open>
  A world for the examples: every key is configured, every command and every file operation
  succeeds, the Gemini backend answers with the jsx scenario, the project directory holds
  two files, and the deployment tool prints a preview URL on its standard output. Paths are
  joined with a slash.
\<close>

definition exJoin :: "string list \<Rightarrow> string" where
  "exJoin ps = foldr (\<lambda>a b. if b = [] then a else a @ ''/'' @ b) ps []"

definition exBasename :: "string \<Rightarrow> string" where
  "exBasename p = rev (takeWhile (\<lambda>c. c \<noteq> CHR ''/'') (rev p))"

definition exDirname :: "string \<Rightarrow> string" where
  "exDirname p = rev (drop 1 (dropWhile (\<lambda>c. c \<noteq> CHR ''/'') (rev p)))"

definition exExtname :: "string \<Rightarrow> string" where
  "exExtname p =
     (if CHR ''.'' \<in> set (exBasename p)
      then CHR ''.'' # rev (takeWhile (\<lambda>c. c \<noteq> CHR ''.'') (rev p)) else [])"

definition exRelative :: "string \<Rightarrow> string \<Rightarrow> string" where
  "exRelative base p = drop (length base + 1) p"

definition exDeployOutput :: string where
  "exDeployOutput =
     ''Vercel CLI 32.0'' @ [newline]
       @ ''Production: https://ai-project-abc-xyz12.vercel.app [2s]'' @ [newline]"

definition exEnv :: env where
  "exEnv =
     \<lparr>VERCEL_TOKEN = Some ''tok'', ASSISTANT_ID = Some ''asst'', genAI = True, anthropic = True,
      OUTPUT_DIR_BASE = ''/srv/generated_projects'', randomId = ''abc'',
      now = (\<lambda>k. 1000 + k),
      pathJoin = exJoin, pathBasename = exBasename, pathDirname = exDirname,
      pathExtname = exExtname, pathRelative = exRelative,
      existsSync = (\<lambda>p. True), mkdirSync = (\<lambda>p. None), writeFileSync = (\<lambda>p t. None),
      statSize = (\<lambda>p. Inr 10), readFileSync = (\<lambda>p. Inr ''x''),
      readdirTree =
        (\<lambda>p. Inr [(''package.json'', FileEntry), (''src'', DirEntry [(''App.jsx'', FileEntry)])]),
      exec =
        (\<lambda>cmd cwd k. if startsWith cmd ''npx vercel'' then (None, exDeployOutput, ''Deploying'')
                     else (None, [], [])),
      threadsCreate = Inr ''thread'', messagesCreate = None, runsCreate = Inr ''run'',
      runsRetrieve = (\<lambda>k. Inr ''completed''), messagesList = Inr (Some exAppJsx),
      geminiGenerate = (\<lambda>p. Inr exAppJsx), claudeCreate = (\<lambda>p. Inr exAppJsx)\<rparr>"

definition exPreviewUrl :: string where
  "exPreviewUrl = ''https://ai-project-abc-xyz12.vercel.app''"

definition exProductionUrl :: string where
  "exProductionUrl = ''https://ai-project-abc.vercel.app/''"

text \<open>
  The example world, but the deployment tool prints its banner on the standard output and
  the URL on the standard error.
\<close>

definition exStdout :: string where
  "exStdout = ''Vercel CLI 32.0'' @ [newline]"

definition exStderr :: string where
  "exStderr = ''Production: https://ai-project-abc-xyz12.vercel.app [2s]'' @ [newline]"

definition exEnvStderr :: env where
  "exEnvStderr =
     exEnv\<lparr>exec := (\<lambda>cmd cwd k. if startsWith cmd ''npx vercel'' then (None, exStdout, exStderr)
                              else (None, [], []))\<rparr>"

text \<open>A job that was deployed, and the same job while it is being deployed.\<close>

definition exDeployedJob :: job where
  "exDeployedJob =
     \<lparr>jobId = ''abc'', prompt = ''counter app'', outputDir = ''generated_projects/abc'',
      status = Completed, created = 1000, lastUpdated = 1005, completed = True,
      apiProvider = ''gemini'',
      jobFiles = Some [''package.json'', ''src/App.jsx''],
      fileContents = Some [(''package.json'', ''x''), (''src/App.jsx'', ''x'')],
      deploymentUrl = Some ''https://ai-project-abc.vercel.app/'',
      deploymentOutput = Some exDeployOutput, error = None\<rparr>"

definition exDeployingJob :: job where
  "exDeployingJob =
     exDeployedJob\<lparr>status := Deploying, completed := False, deploymentUrl := None,
                   deploymentOutput := None\<rparr>"






text \<open>
  Two blocks named \<^verbatim>\<open>file2.js\<close>, then a block without a filename; and two blocks
  named \<^verbatim>\<open>a.js\<close>, the second of which holds a template literal.
\<close>

definition exNameTakenAgain :: string where
  "exNameTakenAgain =
     fence @ ''js'' @ [newline] @ ''// filename: file2.js'' @ [newline] @ ''a'' @ fence @ '' ''
       @ fence @ ''js'' @ [newline] @ ''// filename: file2.js'' @ [newline] @ ''b'' @ fence @ '' ''
       @ fence @ ''js'' @ [newline] @ ''c'' @ fence"

definition exSecondWithBacktick :: string where
  "exSecondWithBacktick =
     fence @ ''js'' @ [newline] @ ''// filename: a.js'' @ [newline] @ ''one'' @ [newline] @ fence
       @ [newline]
       @ fence @ ''js'' @ [newline] @ ''// filename: a.js'' @ [newline]
       @ ''let s = '' @ [backtick] @ ''two'' @ [backtick] @ '';'' @ [newline] @ fence"

text \<open>A response with the name \<^verbatim>\<open>a.js\<close> on two blocks of different content.\<close>

definition exSameName :: string where
  "exSameName =
     fence @ ''js'' @ [newline] @ ''// filename: a.js'' @ [newline] @ ''one'' @ [newline] @ fence
       @ [newline]
       @ fence @ ''js'' @ [newline] @ ''// filename: a.js'' @ [newline] @ ''two'' @ [newline] @ fence"

section \<open>Facts about the matcher\<close>

lemma greedy_consumed:
  "s' \<in> set (greedy p s) \<Longrightarrow> \<exists>u. s = u @ s' \<and> list_all p u"
proof (induction s)
  case Nil
  then show ?case by simp
next
  case (Cons x xs)
  show ?case
  proof (cases "s' = x # xs")
    case True
    then show ?thesis by simp
  next
    case False
    with Cons.prems have px: "p x" and "s' \<in> set (greedy p xs)"
      by (auto split: if_splits)
    with Cons.IH obtain u where "xs = u @ s'" "list_all p u" by blast
    with px have "x # xs = (x # u) @ s' \<and> list_all p (x # u)" by simp
    then show ?thesis by blast
  qed
qed

lemma lazy_consumed:
  "s' \<in> set (lazy p s) \<Longrightarrow> \<exists>u. s = u @ s' \<and> list_all p u"
proof (induction s)
  case Nil
  then show ?case by simp
next
  case (Cons x xs)
  show ?case
  proof (cases "s' = x # xs")
    case True
    then show ?thesis by simp
  next
    case False
    with Cons.prems have px: "p x" and "s' \<in> set (lazy p xs)"
      by (auto split: if_splits)
    with Cons.IH obtain u where "xs = u @ s'" "list_all p u" by blast
    with px have "x # xs = (x # u) @ s' \<and> list_all p (x # u)" by simp
    then show ?thesis by blast
  qed
qed

lemma ms_consumed:
  "(c', s') \<in> set (ms n r s c) \<Longrightarrow> \<exists>u. s = u @ s'"
proof (induction r arbitrary: s c c' s')
  case (Lit t)
  then have "startsWith s t" "s' = drop (length t) s" by (auto split: if_splits)
  then have "s = t @ s'" by (metis startsWith_def append_take_drop_id)
  then show ?case by blast
next
  case (Cls p)
  then show ?case by (cases s) (auto split: if_splits)
next
  case (Seq a b)
  then obtain c1 s1 where a: "(c1, s1) \<in> set (ms n a s c)" and b: "(c', s') \<in> set (ms n b s1 c1)"
    by auto
  from Seq.IH(1) [OF a] obtain u where "s = u @ s1" by blast
  moreover from Seq.IH(2) [OF b] obtain v where "s1 = v @ s'" by blast
  ultimately have "s = (u @ v) @ s'" by simp
  then show ?case by blast
next
  case (Alt a b)
  then show ?case by auto
next
  case (Star p)
  then show ?case by (auto dest: greedy_consumed)
next
  case (Plus p)
  then obtain x xs where s: "s = x # xs" "p x" "s' \<in> set (greedy p xs)"
    by (cases s) (auto split: if_splits)
  then obtain u where "xs = u @ s'" by (blast dest: greedy_consumed)
  with s have "s = (x # u) @ s'" by simp
  then show ?case by blast
next
  case (LazyPlus p)
  then obtain x xs where s: "s = x # xs" "p x" "s' \<in> set (lazy p xs)"
    by (cases s) (auto split: if_splits)
  then obtain u where "xs = u @ s'" by (blast dest: lazy_consumed)
  with s have "s = (x # u) @ s'" by simp
  then show ?case by blast
next
  case (Opt r)
  then show ?case by auto
next
  case (Group g r)
  then show ?case by auto
next
  case Bol
  then show ?case by (auto split: if_splits)
qed

lemma ms_consumesOnly:
  "consumesOnly Q r \<Longrightarrow> (c', s') \<in> set (ms n r s c) \<Longrightarrow> \<exists>u. s = u @ s' \<and> list_all Q u"
proof (induction r arbitrary: s c c' s')
  case (Lit t)
  then have "startsWith s t" "s' = drop (length t) s" by (auto split: if_splits)
  then have "s = t @ s'" by (metis startsWith_def append_take_drop_id)
  with Lit.prems(1) have "s = t @ s' \<and> list_all Q t" by simp
  then show ?case by blast
next
  case (Cls p)
  then obtain x where "s = x # s'" "p x" by (cases s) (auto split: if_splits)
  with Cls.prems(1) have "s = [x] @ s' \<and> list_all Q [x]" by simp
  then show ?case by blast
next
  case (Seq a b)
  then obtain c1 s1 where a: "(c1, s1) \<in> set (ms n a s c)" and b: "(c', s') \<in> set (ms n b s1 c1)"
    by auto
  from Seq.prems(1) have qa: "consumesOnly Q a" and qb: "consumesOnly Q b" by simp_all
  from Seq.IH(1) [OF qa a] obtain u where u: "s = u @ s1" "list_all Q u" by blast
  from Seq.IH(2) [OF qb b] obtain v where v: "s1 = v @ s'" "list_all Q v" by blast
  from u v have "s = (u @ v) @ s' \<and> list_all Q (u @ v)" by simp
  then show ?case by blast
next
  case (Alt a b)
  then show ?case by auto
next
  case (Star p)
  then obtain u where u: "s = u @ s'" "list_all p u" by (auto dest: greedy_consumed)
  with Star.prems(1) have "list_all Q u" by (simp add: list_all_iff)
  with u show ?case by blast
next
  case (Plus p)
  then obtain x xs where s: "s = x # xs" "p x" "s' \<in> set (greedy p xs)"
    by (cases s) (auto split: if_splits)
  then obtain u where "xs = u @ s'" "list_all p u" by (blast dest: greedy_consumed)
  with s have xu: "s = (x # u) @ s'" "list_all p (x # u)" by simp_all
  with Plus.prems(1) have "list_all Q (x # u)" by (simp add: list_all_iff)
  with xu show ?case by blast
next
  case (LazyPlus p)
  then obtain x xs where s: "s = x # xs" "p x" "s' \<in> set (lazy p xs)"
    by (cases s) (auto split: if_splits)
  then obtain u where "xs = u @ s'" "list_all p u" by (blast dest: lazy_consumed)
  with s have xu: "s = (x # u) @ s'" "list_all p (x # u)" by simp_all
  with LazyPlus.prems(1) have "list_all Q (x # u)" by (simp add: list_all_iff)
  with xu show ?case by blast
next
  case (Opt r)
  then show ?case by auto
next
  case (Group g r)
  then show ?case by auto
next
  case Bol
  then show ?case by (auto split: if_splits)
qed

lemma ms_capturedOnly:
  "groupConsumesOnly g Q r \<Longrightarrow> capturedOnly g Q c \<Longrightarrow> (c', s') \<in> set (ms n r s c)
     \<Longrightarrow> capturedOnly g Q c'"
proof (induction r arbitrary: s c c' s')
  case (Lit t)
  from Lit.prems(3) have "c' = c" by (simp split: if_splits)
  with Lit.prems(2) show ?case by simp
next
  case (Cls p)
  from Cls.prems(3) have "c' = c" by (cases s) (simp_all split: if_splits)
  with Cls.prems(2) show ?case by simp
next
  case (Seq a b)
  from Seq.prems(3) obtain c1 s1
    where a: "(c1, s1) \<in> set (ms n a s c)" and b: "(c', s') \<in> set (ms n b s1 c1)"
    by auto
  from Seq.prems(1) have ga: "groupConsumesOnly g Q a" and gb: "groupConsumesOnly g Q b"
    by simp_all
  from Seq.IH(1) [OF ga Seq.prems(2) a] have "capturedOnly g Q c1" .
  from Seq.IH(2) [OF gb this b] show ?case .
next
  case (Alt a b)
  from Alt.prems(1) have ga: "groupConsumesOnly g Q a" and gb: "groupConsumesOnly g Q b"
    by simp_all
  from Alt.prems(3) have "(c', s') \<in> set (ms n a s c) \<or> (c', s') \<in> set (ms n b s c)"
    by simp
  then show ?case
  proof
    assume "(c', s') \<in> set (ms n a s c)"
    from Alt.IH(1) [OF ga Alt.prems(2) this] show ?thesis .
  next
    assume "(c', s') \<in> set (ms n b s c)"
    from Alt.IH(2) [OF gb Alt.prems(2) this] show ?thesis .
  qed
next
  case (Star p)
  from Star.prems(3) have "c' = c" by auto
  with Star.prems(2) show ?case by simp
next
  case (Plus p)
  from Plus.prems(3) have "c' = c" by (cases s) (auto split: if_splits)
  with Plus.prems(2) show ?case by simp
next
  case (LazyPlus p)
  from LazyPlus.prems(3) have "c' = c" by (cases s) (auto split: if_splits)
  with LazyPlus.prems(2) show ?case by simp
next
  case (Opt r)
  from Opt.prems(1) have gr: "groupConsumesOnly g Q r" by simp
  from Opt.prems(3) have "(c', s') \<in> set (ms n r s c) \<or> c' = c" by auto
  then show ?case
  proof
    assume "(c', s') \<in> set (ms n r s c)"
    from Opt.IH [OF gr Opt.prems(2) this] show ?thesis .
  next
    assume "c' = c"
    with Opt.prems(2) show ?thesis by simp
  qed
next
  case (Group h r)
  from Group.prems(3) obtain c1 where in1: "(c1, s') \<in> set (ms n r s c)"
    and c': "c' = c1(h \<mapsto> take (length s - length s') s)"
    by auto
  from Group.prems(1) have gr: "groupConsumesOnly g Q r" by simp
  from Group.IH [OF gr Group.prems(2) in1] have c1: "capturedOnly g Q c1" .
  show ?case
  proof (cases "h = g")
    case False
    with c1 c' show ?thesis by (simp add: capturedOnly_def)
  next
    case True
    with Group.prems(1) have "consumesOnly Q r" by simp
    from ms_consumesOnly [OF this in1] obtain u where "s = u @ s'" "list_all Q u" by blast
    then have "list_all Q (take (length s - length s') s)" by simp
    with True c' show ?thesis by (simp add: capturedOnly_def)
  qed
next
  case Bol
  from Bol.prems(3) have "c' = c" by (simp split: if_splits)
  with Bol.prems(2) show ?case by simp
qed

lemma search_result:
  "search r n pre s = Some m \<Longrightarrow>
     \<exists>s0. (caps m, after m) \<in> set (ms n r s0 Map.empty) \<and>
          matched m = take (length s0 - length (after m)) s0"
proof (induction s arbitrary: pre)
  case Nil
  show ?case
  proof (cases "ms n r [] Map.empty")
    case Nil
    with Nil.prems show ?thesis by (simp add: search.simps [of _ _ _ "[]"])
  next
    case (Cons a list)
    obtain c s' where a: "a = (c, s')" by (cases a)
    with Cons Nil.prems have "caps m = c" "after m = s'"
        "matched m = take (length ([] :: string) - length s') []"
      by (auto simp: search.simps [of _ _ _ "[]"])
    moreover from Cons a have "(c, s') \<in> set (ms n r [] Map.empty)" by simp
    ultimately show ?thesis by blast
  qed
next
  case (Cons x xs)
  show ?case
  proof (cases "ms n r (x # xs) Map.empty")
    case Nil
    with Cons.prems have "search r n (pre @ [x]) xs = Some m"
      by (simp add: search.simps [of _ _ _ "x # xs"])
    from Cons.IH [OF this] show ?thesis .
  next
    case (Cons a list)
    obtain c s' where a: "a = (c, s')" by (cases a)
    with Cons Cons.prems have "caps m = c" "after m = s'"
        "matched m = take (length (x # xs) - length s') (x # xs)"
      by (auto simp: search.simps [of _ _ _ "x # xs"])
    moreover from Cons a have "(c, s') \<in> set (ms n r (x # xs) Map.empty)" by simp
    ultimately show ?thesis by blast
  qed
qed

lemma search_capturedOnly:
  assumes "groupConsumesOnly g Q r" and "search r n pre s = Some m"
  shows "list_all Q (capture m g)"
proof -
  from search_result [OF assms(2)] obtain s0
    where "(caps m, after m) \<in> set (ms n r s0 Map.empty)" by blast
  from ms_capturedOnly [OF assms(1) _ this] have "capturedOnly g Q (caps m)"
    by (simp add: capturedOnly_def)
  then show ?thesis by (simp add: capture_def capturedOnly_def split: option.splits)
qed

lemma codeBlockMatches_search:
  "m \<in> set (codeBlockMatches n s) \<Longrightarrow> \<exists>pre s0. search codeBlockRegex n pre s0 = Some m"
proof (induction n s rule: codeBlockMatches.induct)
  case (1 n s)
  show ?case
  proof (cases "search codeBlockRegex n [] s")
    case None
    with "1.prems" show ?thesis by (simp add: codeBlockMatches.simps [of n s])
  next
    case (Some m0)
    with "1.prems" have "m = m0 \<or> m \<in> set (codeBlockMatches n (after m0))"
      by (simp add: codeBlockMatches.simps [of n s])
    then show ?thesis
    proof
      assume "m = m0"
      with Some show ?thesis by blast
    next
      assume "m \<in> set (codeBlockMatches n (after m0))"
      from "1.IH" [OF Some this] show ?thesis .
    qed
  qed
qed

section \<open>No backtick in what is extracted\<close>

lemma filenameChar_notBacktick: "filenameChar c \<Longrightarrow> notBacktick c"
  by (auto simp: filenameChar_def notBacktick_def backtick_def isAlnum_def isLower_def
        isUpper_def isDigit_def)

lemma isDigit_notBacktick: "isDigit c \<Longrightarrow> notBacktick c"
  by (auto simp: notBacktick_def backtick_def isDigit_def)

lemma digitChar_values: "map digitChar [0, 1, 2, 3, 4, 5, 6, 7, 8, 9] = ''0123456789''"
  by code_simp

lemma digitChar_isDigit: "d < 10 \<Longrightarrow> isDigit (digitChar d)"
proof -
  assume "d < 10"
  then have "d \<in> set [0, 1, 2, 3, 4, 5, 6, 7, 8, 9]" by auto
  then have "digitChar d \<in> digitChar ` set [0, 1, 2, 3, 4, 5, 6, 7, 8, 9]"
    by (rule imageI)
  then have "digitChar d \<in> set (map digitChar [0, 1, 2, 3, 4, 5, 6, 7, 8, 9])"
    by (simp only: set_map)
  then show ?thesis
    unfolding digitChar_values isDigit_def .
qed

lemma showNat_digits: "list_all isDigit (showNat n)"
proof (induction n rule: showNat.induct)
  case (1 n)
  show ?case
  proof (cases "n < 10")
    case True
    then show ?thesis by (simp add: showNat.simps [of n] digitChar_isDigit)
  next
    case False
    with 1 have "list_all isDigit (showNat (n div 10))" by simp
    moreover have "isDigit (digitChar (n mod 10))" by (simp add: digitChar_isDigit)
    ultimately show ?thesis using False by (simp add: showNat.simps [of n])
  qed
qed

lemma extension_values:
  "getExtensionFromLanguage l
     \<in> set (''.txt'' # ''function Object() { [native code] }'' # ''[object Object]''
              # map snd langMap)"
proof (cases "map_of langMap (toLowerCase l)")
  case None
  then show ?thesis
    by (simp add: getExtensionFromLanguage_def inheritedProperty_def)
next
  case (Some ext)
  then have "(toLowerCase l, ext) \<in> set langMap" by (rule map_of_SomeD)
  then have "ext \<in> set (map snd langMap)" by force
  with Some show ?thesis by (simp add: getExtensionFromLanguage_def)
qed

lemma extension_shape:
  "\<exists>c rest. getExtensionFromLanguage l = c # rest \<and> \<not> isDigit c \<and> c \<noteq> CHR ''_'' \<and>
     list_all notBacktick (c # rest)"
  using extension_values [of l]
  by (auto simp: langMap_def notBacktick_def backtick_def isDigit_def)

lemma trim_subset: "set (trim s) \<subseteq> set s"
proof -
  have "set (trim s) \<subseteq> set (rev (dropWhile isSpace s))"
    unfolding trim_def by (metis set_dropWhileD set_rev subsetI)
  also have "\<dots> \<subseteq> set s" by (auto dest: set_dropWhileD)
  finally show ?thesis .
qed

lemma trim_list_all: "list_all Q s \<Longrightarrow> list_all Q (trim s)"
  using trim_subset [of s] by (auto simp: list_all_iff)

lemma codeBlockRegex_group2: "groupConsumesOnly 2 filenameChar codeBlockRegex"
  by (simp add: codeBlockRegex_def)

lemma codeBlockRegex_group3: "groupConsumesOnly 3 notBacktick codeBlockRegex"
  by (simp add: codeBlockRegex_def)

lemma firstLineRegex_group1: "groupConsumesOnly 1 filenameChar firstLineRegex"
  by (simp add: firstLineRegex_def)

lemma codeBlocks_captures:
  assumes "m \<in> set (codeBlocks response)"
  shows "list_all filenameChar (capture m 2)" and "list_all notBacktick (capture m 3)"
proof -
  from assms obtain pre s0 where s: "search codeBlockRegex (length response) pre s0 = Some m"
    unfolding codeBlocks_def by (blast dest: codeBlockMatches_search)
  from search_capturedOnly [OF codeBlockRegex_group2 s]
  show "list_all filenameChar (capture m 2)" .
  from search_capturedOnly [OF codeBlockRegex_group3 s]
  show "list_all notBacktick (capture m 3)" .
qed

lemma blockCode_clean:
  assumes "m \<in> set (codeBlocks response)"
  shows "list_all notBacktick (blockCode m)"
  unfolding blockCode_def
  using codeBlocks_captures(2) [OF assms] by (rule trim_list_all)

lemma file_prefix_clean: "list_all notBacktick ''file''"
  by (simp add: notBacktick_def backtick_def)

lemma blockFilename_clean:
  assumes "m \<in> set (codeBlocks response)"
  shows "list_all notBacktick (blockFilename fs m)"
proof (cases "blockExplicitFilename m \<noteq> []")
  case True
  from codeBlocks_captures(1) [OF assms]
  have "list_all notBacktick (capture m 2)"
    by (auto simp: list_all_iff dest: filenameChar_notBacktick)
  with True show ?thesis by (simp add: blockFilename_def blockExplicitFilename_def)
next
  case False
  show ?thesis
  proof (cases "match firstLineRegex (blockCode m)")
    case (Some fm)
    then have "search firstLineRegex (length (blockCode m)) [] (blockCode m) = Some fm"
      by (simp add: match_def)
    from search_capturedOnly [OF firstLineRegex_group1 this]
    have "list_all notBacktick (capture fm 1)"
      by (auto simp: list_all_iff dest: filenameChar_notBacktick)
    with False Some show ?thesis by (simp add: blockFilename_def)
  next
    case None
    obtain c rest where ext: "getExtensionFromLanguage (blockLang m) = c # rest"
      "list_all notBacktick (c # rest)"
      using extension_shape by blast
    have "list_all notBacktick (showNat (length fs + 1))"
      using showNat_digits [of "length fs + 1"]
      by (auto simp: list_all_iff dest: isDigit_notBacktick)
    then have "list_all notBacktick
        (''file'' @ showNat (length fs + 1) @ getExtensionFromLanguage (blockLang m))"
      using ext file_prefix_clean by simp
    with False None show ?thesis by (simp add: blockFilename_def)
  qed
qed

lemma set_update_subset: "set (AList.update k v al) \<subseteq> insert (k, v) (set al)"
  by (induction al) auto

lemma set_insertIndex: "set (insertIndex k v al) = insert (k, v) (set al)"
  by (induction al) (auto split: if_splits)

lemma set_setProperty_subset: "set (setProperty k v al) \<subseteq> insert (k, v) (set al)"
  using set_update_subset [of k v al]
  by (auto simp: setProperty_def set_insertIndex)

lemma storeBlock_clean:
  assumes "m \<in> set (codeBlocks response)" and "cleanEntries fs"
  shows "cleanEntries (storeBlock fs m)"
proof -
  have "list_all notBacktick (blockFilename fs m)" "list_all notBacktick (blockCode m)"
    using assms(1) by (rule blockFilename_clean, rule blockCode_clean)
  with assms(2) set_setProperty_subset [of "blockFilename fs m" "blockCode m" fs]
  show ?thesis
    unfolding cleanEntries_def storeBlock_def list_all_iff by blast
qed

lemma foldl_storeBlock_clean:
  "set blocks \<subseteq> set (codeBlocks response) \<Longrightarrow> cleanEntries fs
     \<Longrightarrow> cleanEntries (foldl storeBlock fs blocks)"
proof (induction blocks arbitrary: fs)
  case Nil
  then show ?case by simp
next
  case (Cons m blocks)
  from Cons.prems have "m \<in> set (codeBlocks response)" by simp
  from storeBlock_clean [OF this Cons.prems(2)] have "cleanEntries (storeBlock fs m)" .
  with Cons.IH [of "storeBlock fs m"] Cons.prems(1) show ?case by simp
qed

lemma extractFiles_clean: "cleanEntries (extractFiles (codeBlocks response))"
  unfolding extractFiles_def
  by (rule foldl_storeBlock_clean [of _ response]) (simp_all add: cleanEntries_def)

text \<open>
  Claim C10. For every input text, no filename and no content in the mapping that the
  extractor produces contains a backtick: the filename comes from a character class without
  it, or is \<^verbatim>\<open>file<N><ext>\<close>, and the content is a trimmed match of a pattern that
  excludes it. The same holds for \<^verbatim>\<open>extractCodeFromAssistantResponse\<close>, which runs the same
  loop. So a fenced block whose body holds a backtick is never one file in full.
\<close>

theorem extracted_entries_have_no_backtick:
  "(\<forall>(filename, code) \<in> set (files (extractCodeFromResponse response)).
      backtick \<notin> set filename \<and> backtick \<notin> set code) \<and>
   (\<forall>result. extractCodeFromAssistantResponse e = Inr result \<longrightarrow>
      (\<forall>(filename, code) \<in> set (files result).
         backtick \<notin> set filename \<and> backtick \<notin> set code))"
proof -
  have clean: "\<forall>(filename, code) \<in> set (files (extractCodeFromResponse rawText)).
      backtick \<notin> set filename \<and> backtick \<notin> set code" for rawText
    using extractFiles_clean [of rawText]
    by (auto simp: extractCodeFromResponse_def cleanEntries_def list_all_iff notBacktick_def)
  have "\<exists>rawText. result = extractCodeFromResponse rawText"
    if "extractCodeFromAssistantResponse e = Inr result" for result
    using that
    by (auto simp: extractCodeFromAssistantResponse_def split: sum.splits option.splits)
  with clean show ?thesis by blast
qed

text \<open>
  On a response whose second block holds a template literal, only the first block is
  extracted, and its entry has no backtick.
\<close>

theorem extracted_entries_have_no_backtick_witness:
  "files (extractCodeFromResponse exTemplateLiteral) = [(''a.js'', ''let a = 1;'')] \<and>
   backtick \<notin> set ''a.js'' \<and> backtick \<notin> set ''let a = 1;''"
proof -
  have f: "files (extractCodeFromResponse exTemplateLiteral) = [(''a.js'', ''let a = 1;'')]"
    by code_simp
  from extracted_entries_have_no_backtick [of exTemplateLiteral]
  have "\<forall>(filename, code) \<in> set (files (extractCodeFromResponse exTemplateLiteral)).
      backtick \<notin> set filename \<and> backtick \<notin> set code" by blast
  with f show ?thesis by simp
qed

section \<open>The scenario of the jsx block\<close>

lemma exAppJsx_extraction:
  "extractCodeFromResponse exAppJsx =
     \<lparr>files = [(''src/App.jsx'', ''export default () => null;'')],
      projectInfo = \<lparr>framework = React, language = JavaScript, cssFramework = None,
                     features = []\<rparr>\<rparr>"
  by code_simp

text \<open>
  Claim C7. On that response the extraction yields the one entry \<^verbatim>\<open>src/App.jsx\<close> with the
  content \<^verbatim>\<open>export default () => null;\<close> (the directive line is consumed, the content
  trimmed), and the project information keeps its defaults: JavaScript, React, no CSS
  framework.
\<close>

theorem extract_app_jsx_scenario:
  "extractCodeFromResponse exAppJsx =
     \<lparr>files = [(''src/App.jsx'', ''export default () => null;'')],
      projectInfo = \<lparr>framework = React, language = JavaScript, cssFramework = None,
                     features = []\<rparr>\<rparr>"
  by (rule exAppJsx_extraction)

section \<open>An example world\<close>

lemma exEnv_fields:
  "VERCEL_TOKEN exEnv = Some ''tok''"
  "ASSISTANT_ID exEnv = Some ''asst''"
  "genAI exEnv" "anthropic exEnv"
  "OUTPUT_DIR_BASE exEnv = ''/srv/generated_projects''"
  "randomId exEnv = ''abc''"
  "now exEnv k = 1000 + k"
  "pathJoin exEnv = exJoin" "pathBasename exEnv = exBasename" "pathDirname exEnv = exDirname"
  "pathExtname exEnv = exExtname" "pathRelative exEnv = exRelative"
  "existsSync exEnv p" "mkdirSync exEnv p = None" "writeFileSync exEnv p t = None"
  "statSize exEnv p = Inr 10" "readFileSync exEnv p = Inr ''x''"
  "readdirTree exEnv p
     = Inr [(''package.json'', FileEntry), (''src'', DirEntry [(''App.jsx'', FileEntry)])]"
  "exec exEnv cmd cwd n
     = (if startsWith cmd ''npx vercel'' then (None, exDeployOutput, ''Deploying'')
        else (None, [], []))"
  "geminiGenerate exEnv p = Inr exAppJsx"
  by (simp_all add: exEnv_def)

section \<open>The deployment URL\<close>

lemma preview_url_canonical:
  "trim exPreviewUrl = exPreviewUrl"
  "replace previewSuffixRegex ''.vercel.app'' exPreviewUrl = ''https://ai-project-abc.vercel.app''"
  "endsWith ''https://ai-project-abc.vercel.app'' ''/'' = False"
  "exPreviewUrl \<noteq> []"
  by code_simp+

text \<open>
  Claim C8 fails as stated. The URL is the first URL-shaped token of the tool's combined
  output, in whichever order the two streams are combined, but \<^verbatim>\<open>executeCommand\<close> resolves
  with the standard output alone, which holds no URL: \<^verbatim>\<open>deployToVercel\<close> reports a failure.
\<close>

theorem combined_output_counterexample:
  "exec exEnvStderr (deployCommand exEnvStderr ''ai-project-abc'') ''/srv/generated_projects/abc'' 0
     = (None, exStdout, exStderr) \<and>
   firstUrlToken (exStdout @ exStderr) = Some exPreviewUrl \<and>
   firstUrlToken (exStderr @ exStdout) = Some exPreviewUrl \<and>
   snd (deployToVercel exEnvStderr ''/srv/generated_projects/abc'' ''ai-project-abc'')
     = Inr (DeployFailure ''Could not extract deployment URL from Vercel output'')"
proof -
  have x: "exec exEnvStderr (deployCommand exEnvStderr ''ai-project-abc'')
             ''/srv/generated_projects/abc'' 0 = (None, exStdout, exStderr)"
    by (simp add: exEnvStderr_def exEnv_def deployCommand_def startsWith_def)
  have a: "firstUrlToken (exStdout @ exStderr) = Some exPreviewUrl"
    by code_simp
  have b: "firstUrlToken (exStderr @ exStdout) = Some exPreviewUrl"
    by code_simp
  have d: "snd (deployToVercel exEnvStderr ''/srv/generated_projects/abc'' ''ai-project-abc'')
     = Inr (DeployFailure ''Could not extract deployment URL from Vercel output'')"
    by code_simp
  from x a b d show ?thesis by blast
qed

text \<open>
  Claim C8, amended. Whenever the first URL-shaped token of the deployment tool's standard
  output is \<^verbatim>\<open>https://ai-project-abc-xyz12.vercel.app\<close>, the adapter parses it and makes it
  \<^verbatim>\<open>https://ai-project-abc.vercel.app/\<close>: the preview suffix before \<^verbatim>\<open>.vercel.app\<close> is
  removed and a slash is appended. \<^verbatim>\<open>deployToVercel\<close> then returns that URL if the token is
  configured and its commands and its write succeed.
\<close>

theorem deployment_url_canonicalized:
  assumes "firstUrlToken stdout = Some exPreviewUrl"
  shows "parseDeploymentUrl stdout = Some exProductionUrl \<and>
         (truthy (VERCEL_TOKEN e) \<and>
          executeCommand e ''npm install'' dir 0 = Inr out1 \<and>
          executeCommand e ''npm install @vitejs/plugin-react --save-dev'' dir 0 = Inr out2 \<and>
          writeFileSync e (pathJoin e [dir, ''.vercelignore''])
            (''README.md'' @ [newline] @ ''node_modules'' @ [newline] @ ''.git'') = None \<and>
          exec e (deployCommand e name) dir 0 = (None, stdout, stderr)
          \<longrightarrow> snd (deployToVercel e dir name) = Inr (DeploySuccess exProductionUrl stdout))"
proof -
  have p: "parseDeploymentUrl stdout = Some exProductionUrl"
    using assms by (simp add: parseDeploymentUrl_def preview_url_canonical exProductionUrl_def)
  have "executeCommand e (deployCommand e name) dir 0 = Inr stdout"
    if "exec e (deployCommand e name) dir 0 = (None, stdout, stderr)"
    using that by (simp add: executeCommand_def)
  with p show ?thesis
    by (simp add: deployToVercel_def Let_def)
qed

text \<open>
  In the example world the tool's standard output holds the preview URL after some text, and
  the adapter returns the production URL.
\<close>

theorem deployment_url_canonicalized_witness:
  "firstUrlToken exDeployOutput = Some exPreviewUrl \<and>
   exec exEnv (deployCommand exEnv ''ai-project-abc'') ''/srv/generated_projects/abc'' 0
     = (None, exDeployOutput, ''Deploying'') \<and>
   parseDeploymentUrl exDeployOutput = Some exProductionUrl \<and>
   snd (deployToVercel exEnv ''/srv/generated_projects/abc'' ''ai-project-abc'')
     = Inr (DeploySuccess exProductionUrl exDeployOutput)"
proof -
  have h: "firstUrlToken exDeployOutput = Some exPreviewUrl"
    by code_simp
  have c: "exec exEnv (deployCommand exEnv ''ai-project-abc'')
             ''/srv/generated_projects/abc'' 0 = (None, exDeployOutput, ''Deploying'')"
    by (simp add: exEnv_fields deployCommand_def startsWith_def)
  have i: "executeCommand exEnv ''npm install'' ''/srv/generated_projects/abc'' 0 = Inr []"
    "executeCommand exEnv ''npm install @vitejs/plugin-react --save-dev''
       ''/srv/generated_projects/abc'' 0 = Inr []"
    by (simp_all add: executeCommand_def exEnv_fields startsWith_def)
  from deployment_url_canonicalized [OF h, where e = exEnv
      and dir = "''/srv/generated_projects/abc''" and name = "''ai-project-abc''"
      and ?out1.0 = "[]" and ?out2.0 = "[]" and stderr = "''Deploying''"] h c i
  show ?thesis
    by (simp add: exEnv_fields truthy_def)
qed

section \<open>The status route\<close>

text \<open>
  Claim C9. The answer to a status query on a known job always holds \<^verbatim>\<open>success\<close>,
  \<^verbatim>\<open>jobId\<close>, \<^verbatim>\<open>status\<close>, \<^verbatim>\<open>created\<close> and \<^verbatim>\<open>lastUpdated\<close>. While the job is not completed it
  holds nothing else. Once it is completed it also holds \<^verbatim>\<open>outputDir\<close> and, when set on the
  job, \<^verbatim>\<open>error\<close>, \<^verbatim>\<open>files\<close> and \<^verbatim>\<open>deploymentUrl\<close>; a string counts as set when the
  handler's test \<^verbatim>\<open>if (job.error)\<close> holds, that is when it is present and not empty.
  \<^verbatim>\<open>fileContents\<close> is in the answer if and only if the query passed \<^verbatim>\<open>includeFiles=true\<close>,
  the job is completed and file contents were captured.
\<close>

theorem status_response_fields:
  "r_success (getDeploymentStatus j q) \<and>
   r_jobId (getDeploymentStatus j q) = jobId j \<and>
   r_status (getDeploymentStatus j q) = status j \<and>
   r_created (getDeploymentStatus j q) = created j \<and>
   r_lastUpdated (getDeploymentStatus j q) = lastUpdated j \<and>
   (\<not> completed j \<longrightarrow>
      r_outputDir (getDeploymentStatus j q) = None \<and>
      r_error (getDeploymentStatus j q) = None \<and>
      r_files (getDeploymentStatus j q) = None \<and>
      r_deploymentUrl (getDeploymentStatus j q) = None) \<and>
   (completed j \<longrightarrow>
      r_outputDir (getDeploymentStatus j q) = Some (outputDir j) \<and>
      r_error (getDeploymentStatus j q) = (if truthy (error j) then error j else None) \<and>
      r_files (getDeploymentStatus j q) = jobFiles j \<and>
      r_deploymentUrl (getDeploymentStatus j q)
        = (if truthy (deploymentUrl j) then deploymentUrl j else None)) \<and>
   (r_fileContents (getDeploymentStatus j q) \<noteq> None
      \<longleftrightarrow> q = Some ''true'' \<and> completed j \<and> fileContents j \<noteq> None) \<and>
   (r_fileContents (getDeploymentStatus j q) \<noteq> None
      \<longrightarrow> r_fileContents (getDeploymentStatus j q) = fileContents j)"
  by (cases "completed j") (simp_all add: getDeploymentStatus_def Let_def)

theorem status_response_fields_witness:
  "getDeploymentStatus exDeployedJob (Some ''true'') =
     \<lparr>r_success = True, r_jobId = ''abc'', r_status = Completed, r_created = 1000,
      r_lastUpdated = 1005, r_outputDir = Some ''generated_projects/abc'', r_error = None,
      r_files = Some [''package.json'', ''src/App.jsx''],
      r_deploymentUrl = Some ''https://ai-project-abc.vercel.app/'',
      r_fileContents = Some [(''package.json'', ''x''), (''src/App.jsx'', ''x'')]\<rparr> \<and>
   r_fileContents (getDeploymentStatus exDeployedJob None) = None \<and>
   getDeploymentStatus exDeployingJob (Some ''true'') =
     \<lparr>r_success = True, r_jobId = ''abc'', r_status = Deploying, r_created = 1000,
      r_lastUpdated = 1005, r_outputDir = None, r_error = None, r_files = None,
      r_deploymentUrl = None, r_fileContents = None\<rparr>"
  using status_response_fields [of exDeployedJob "Some ''true''"]
    status_response_fields [of exDeployedJob None]
    status_response_fields [of exDeployingJob "Some ''true''"]
  by (simp add: exDeployedJob_def exDeployingJob_def truthy_def getDeploymentStatus_def Let_def)

section \<open>Assignments to an object\<close>

lemma map_of_insertIndex:
  "k \<notin> fst ` set al \<Longrightarrow> map_of (insertIndex k v al) = (map_of al)(k \<mapsto> v)"
  by (induction al) (auto simp: fun_eq_iff)

lemma map_of_snoc:
  "k \<notin> fst ` set al \<Longrightarrow> map_of (al @ [(k, v)]) = (map_of al)(k \<mapsto> v)"
proof -
  assume "k \<notin> fst ` set al"
  then have "map_of al k = None" by (simp add: map_of_eq_None_iff)
  then show ?thesis
    by (auto simp: fun_eq_iff map_add_def split: option.splits)
qed

lemma map_of_setProperty:
  "k \<noteq> ''__proto__'' \<Longrightarrow> map_of (setProperty k v al) = (map_of al)(k \<mapsto> v)"
  by (simp add: setProperty_def update_conv' map_of_insertIndex map_of_snoc del: map_of_append)

lemma map_of_setProperty_other:
  "k \<noteq> f \<Longrightarrow> map_of (setProperty k v al) f = map_of al f"
  by (cases "k = ''__proto__''") (simp_all add: map_of_setProperty, simp add: setProperty_def)

lemma distinct_insertIndex:
  "k \<notin> fst ` set al \<Longrightarrow> distinct (map fst al) \<Longrightarrow> distinct (map fst (insertIndex k v al))"
  by (induction al) (auto simp: set_insertIndex)

lemma distinct_setProperty:
  "distinct (map fst al) \<Longrightarrow> distinct (map fst (setProperty k v al))"
  by (auto simp: setProperty_def distinct_update distinct_insertIndex)


section \<open>Default filenames\<close>















section \<open>The last block of a name wins\<close>

lemma assignedNames_length: "length (assignedNames fs blocks) = length blocks"
  by (induction blocks arbitrary: fs) simp_all

lemma assignedNames_explicit:
  "k < length blocks \<Longrightarrow> blockExplicitFilename (blocks ! k) \<noteq> [] \<Longrightarrow>
     assignedNames fs blocks ! k = blockExplicitFilename (blocks ! k)"
proof (induction blocks arbitrary: fs k)
  case Nil
  then show ?case by simp
next
  case (Cons m blocks)
  show ?case
  proof (cases k)
    case 0
    with Cons.prems show ?thesis by (simp add: blockFilename_def)
  next
    case (Suc k')
    with Cons.prems Cons.IH [of k' "storeBlock fs m"] show ?thesis by simp
  qed
qed

lemma foldl_storeBlock_other:
  "f \<notin> set (assignedNames fs blocks) \<Longrightarrow>
     map_of (foldl storeBlock fs blocks) f = map_of fs f"
proof (induction blocks arbitrary: fs)
  case Nil
  then show ?case by simp
next
  case (Cons m blocks)
  from Cons.prems have ne: "blockFilename fs m \<noteq> f"
    and rest: "f \<notin> set (assignedNames (storeBlock fs m) blocks)" by auto
  from Cons.IH [OF rest] have "map_of (foldl storeBlock (storeBlock fs m) blocks) f
      = map_of (storeBlock fs m) f" .
  also from ne have "\<dots> = map_of fs f"
    by (simp add: storeBlock_def map_of_setProperty_other)
  finally show ?case by simp
qed

lemma foldl_storeBlock_last:
  "j < length blocks \<Longrightarrow> assignedNames fs blocks ! j = f \<Longrightarrow> f \<noteq> ''__proto__'' \<Longrightarrow>
   f \<notin> set (drop (Suc j) (assignedNames fs blocks)) \<Longrightarrow>
     map_of (foldl storeBlock fs blocks) f = Some (blockCode (blocks ! j))"
proof (induction blocks arbitrary: fs j)
  case Nil
  then show ?case by simp
next
  case (Cons m blocks)
  show ?case
  proof (cases j)
    case 0
    with Cons.prems have name: "blockFilename fs m = f"
      and rest: "f \<notin> set (assignedNames (storeBlock fs m) blocks)" by simp_all
    from foldl_storeBlock_other [OF rest]
    have "map_of (foldl storeBlock (storeBlock fs m) blocks) f = map_of (storeBlock fs m) f" .
    also from name Cons.prems(3) have "\<dots> = Some (blockCode m)"
      by (simp add: storeBlock_def map_of_setProperty)
    finally show ?thesis using 0 by simp
  next
    case (Suc j')
    with Cons.prems Cons.IH [of j' "storeBlock fs m"] show ?thesis by simp
  qed
qed

lemma foldl_storeBlock_distinct:
  "distinct (map fst fs) \<Longrightarrow> distinct (map fst (foldl storeBlock fs blocks))"
  by (induction blocks arbitrary: fs) (simp_all add: storeBlock_def distinct_setProperty)

lemma filter_key_distinct:
  "distinct (map fst al) \<Longrightarrow> map_of al f = Some v \<Longrightarrow> filter (\<lambda>(k, w). k = f) al = [(f, v)]"
proof (induction al)
  case Nil
  then show ?case by simp
next
  case (Cons a al)
  obtain k w where a: "a = (k, w)" by (cases a)
  show ?case
  proof (cases "k = f")
    case True
    with Cons.prems a have "w = v" and "f \<notin> fst ` set al" by auto
    then have "filter (\<lambda>(k, w). k = f) al = []"
      by (force simp: filter_empty_conv)
    with True a \<open>w = v\<close> show ?thesis by simp
  next
    case False
    with Cons a show ?thesis by simp
  qed
qed

text \<open>
  Claim C5 fails as stated, in two ways. After two blocks named \<^verbatim>\<open>file2.js\<close>, a block
  without a filename gets the default name \<^verbatim>\<open>file2.js\<close>, and its content replaces the
  content of the second block. And a second block whose content holds a backtick is no match
  of the pattern, so the content of the first block stays.
\<close>

theorem last_write_wins_counterexample:
  "map blockExplicitFilename (codeBlocks exNameTakenAgain) = [''file2.js'', ''file2.js'', []] \<and>
   map blockCode (codeBlocks exNameTakenAgain) = [''a'', ''b'', ''c''] \<and>
   files (extractCodeFromResponse exNameTakenAgain) = [(''file2.js'', ''c'')] \<and>
   files (extractCodeFromResponse exSecondWithBacktick) = [(''a.js'', ''one'')]"
  by code_simp

text \<open>
  Claim C5, amended. Take any response in which two matches of the code-block pattern
  carry the same explicit filename directive, other than \<^verbatim>\<open>__proto__\<close>, the second being
  the last block stored under that name (no later block is named so or gets the name as its
  default name). Then the mapping has exactly one entry under the name, and its value is the
  trimmed content of the second block; if the contents differ, the content of the first
  block is no value of that name.
\<close>

theorem last_write_wins:
  assumes "i < j" and "j < length (codeBlocks response)"
    and "blockExplicitFilename (codeBlocks response ! i) = f"
    and "blockExplicitFilename (codeBlocks response ! j) = f"
    and "f \<noteq> []" and "f \<noteq> ''__proto__''"
    and "f \<notin> set (drop (Suc j) (assignedNames [] (codeBlocks response)))"
  shows "filter (\<lambda>(k, v). k = f) (files (extractCodeFromResponse response))
           = [(f, blockCode (codeBlocks response ! j))] \<and>
         map_of (files (extractCodeFromResponse response)) f
           = Some (blockCode (codeBlocks response ! j)) \<and>
         blockCode (codeBlocks response ! j) = trim (capture (codeBlocks response ! j) 3) \<and>
         (blockCode (codeBlocks response ! i) \<noteq> blockCode (codeBlocks response ! j) \<longrightarrow>
            (f, blockCode (codeBlocks response ! i))
              \<notin> set (files (extractCodeFromResponse response)))"
proof -
  let ?blocks = "codeBlocks response"
  let ?files = "files (extractCodeFromResponse response)"
  have fs: "?files = foldl storeBlock [] ?blocks"
    by (simp add: extractCodeFromResponse_def extractFiles_def)
  from assms(2,4,5) have "assignedNames [] ?blocks ! j = f"
    by (simp add: assignedNames_explicit)
  from foldl_storeBlock_last [OF assms(2) this assms(6) assms(7)]
  have m: "map_of ?files f = Some (blockCode (?blocks ! j))" by (simp add: fs)
  have d: "distinct (map fst ?files)"
    unfolding fs by (rule foldl_storeBlock_distinct) simp
  from filter_key_distinct [OF d m]
  have flt: "filter (\<lambda>(k, v). k = f) ?files = [(f, blockCode (?blocks ! j))]" .
  have "(f, blockCode (?blocks ! i)) \<notin> set ?files"
    if "blockCode (?blocks ! i) \<noteq> blockCode (?blocks ! j)"
  proof
    assume "(f, blockCode (?blocks ! i)) \<in> set ?files"
    then have "(f, blockCode (?blocks ! i)) \<in> set (filter (\<lambda>(k, v). k = f) ?files)" by simp
    with flt that show False by simp
  qed
  with flt m show ?thesis by (simp add: blockCode_def)
qed

theorem last_write_wins_witness:
  "map blockExplicitFilename (codeBlocks exSameName) = [''a.js'', ''a.js''] \<and>
   map blockCode (codeBlocks exSameName) = [''one'', ''two''] \<and>
   files (extractCodeFromResponse exSameName) = [(''a.js'', ''two'')] \<and>
   filter (\<lambda>(k, v). k = ''a.js'') (files (extractCodeFromResponse exSameName)) = [(''a.js'', ''two'')] \<and>
   (''a.js'', ''one'') \<notin> set (files (extractCodeFromResponse exSameName))"
proof -
  have e: "map blockExplicitFilename (codeBlocks exSameName) = [''a.js'', ''a.js'']"
    by code_simp
  have c: "map blockCode (codeBlocks exSameName) = [''one'', ''two'']"
    by code_simp
  have f: "files (extractCodeFromResponse exSameName) = [(''a.js'', ''two'')]"
    by code_simp
  from e have len: "length (codeBlocks exSameName) = 2"
    by (metis length_map length_Cons list.size(3) numeral_2_eq_2)
  from e len have e0: "blockExplicitFilename (codeBlocks exSameName ! 0) = ''a.js''"
    and e1: "blockExplicitFilename (codeBlocks exSameName ! 1) = ''a.js''"
    by (metis nth_map nth_Cons_0 zero_less_numeral,
        metis nth_map nth_Cons_0 nth_Cons_Suc One_nat_def one_less_numeral_iff semiring_norm(76))
  from c len have c0: "blockCode (codeBlocks exSameName ! 0) = ''one''"
    and c1: "blockCode (codeBlocks exSameName ! 1) = ''two''"
    by (metis nth_map nth_Cons_0 zero_less_numeral,
        metis nth_map nth_Cons_0 nth_Cons_Suc One_nat_def one_less_numeral_iff semiring_norm(76))
  have d: "''a.js'' \<notin> set (drop (Suc 1) (assignedNames [] (codeBlocks exSameName)))"
    using len by (simp add: assignedNames_length)
  have lt: "(0 :: nat) < 1" by simp
  have l1: "1 < length (codeBlocks exSameName)" using len by simp
  have ne: "''a.js'' \<noteq> []" "''a.js'' \<noteq> ''__proto__''" by simp_all
  note t = last_write_wins [OF lt l1 e0 e1 ne d]
  from t have t1: "filter (\<lambda>(k, v). k = ''a.js'') (files (extractCodeFromResponse exSameName))
      = [(''a.js'', ''two'')]"
    unfolding c1 by blast
  from t have "''one'' \<noteq> ''two'' \<longrightarrow>
      (''a.js'', ''one'') \<notin> set (files (extractCodeFromResponse exSameName))"
    unfolding c0 c1 by blast
  then have t2: "(''a.js'', ''one'') \<notin> set (files (extractCodeFromResponse exSameName))"
    by simp
  from e c f t1 t2 show ?thesis by blast
qed

end
